theory Spec2Isabelle
  imports Main "HOL-Library.Word" "HOL-Library.Sublist" "HOL-Library.Multiset"
begin

section \<open>Go string helpers used by the mirror\<close>

text \<open>
  Go strings are byte sequences; they are modelled as \<open>string\<close> (a list of \<open>char\<close>, one
  per byte).  The functions below follow package \<open>strings\<close> for the calls the repository
  makes: \<open>strings.Split\<close> with a one-byte separator, \<open>strings.TrimSpace\<close>,
  \<open>strings.HasPrefix\<close>, \<open>strings.HasSuffix\<close> and \<open>strings.Contains\<close>.
\<close>

text \<open>\<open>strings.Split(s, sep)\<close> for a separator of one byte: the result always has one more
  element than \<open>s\<close> has separators, so splitting the empty string gives one empty string.\<close>

fun strings_Split :: "string \<Rightarrow> char \<Rightarrow> string list" where
  "strings_Split [] sep = [[]]"
| "strings_Split (c # cs) sep =
     (if c = sep then [] # strings_Split cs sep
      else (case strings_Split cs sep of
              [] \<Rightarrow> [[c]]
            | p # ps \<Rightarrow> (c # p) # ps))"

text \<open>The white space \<open>strings.TrimSpace\<close> removes, for one-byte characters: tab, line feed,
  vertical tab, form feed, carriage return and space.  (Go also trims the Unicode spaces
  that take several bytes in UTF-8; the filter strings here are ASCII.)\<close>

definition isSpace :: "char \<Rightarrow> bool" where
  "isSpace c = (c = CHR 0x09 \<or> c = CHR 0x0A \<or> c = CHR 0x0B \<or> c = CHR 0x0C
                \<or> c = CHR 0x0D \<or> c = CHR '' '')"

definition strings_TrimSpace :: "string \<Rightarrow> string" where
  "strings_TrimSpace s = rev (dropWhile isSpace (rev (dropWhile isSpace s)))"

definition strings_HasPrefix :: "string \<Rightarrow> string \<Rightarrow> bool" where
  "strings_HasPrefix s p = prefix p s"

definition strings_HasSuffix :: "string \<Rightarrow> string \<Rightarrow> bool" where
  "strings_HasSuffix s p = suffix p s"

fun strings_Contains :: "string \<Rightarrow> string \<Rightarrow> bool" where
  "strings_Contains [] sub = (sub = [])"
| "strings_Contains (c # cs) sub = (prefix sub (c # cs) \<or> strings_Contains cs sub)"


section \<open>Binary filter parsing (internal/downloader/binaries/binaries.go)\<close>

record BinaryFilter =
  Tool :: string
  MinVersion :: string

datatype filter_error = InvalidBinaryFilterFormat string

text \<open>The body of the \<open>for _, part := range parts\<close> loop of \<open>ParseBinaryFilter\<close>, with
  \<open>result\<close> as the accumulator: an entry that is empty after trimming is skipped, an entry
  that does not split at \<open>>\<close> into exactly two pieces is an error, and any other entry is
  appended with both pieces trimmed.  The pieces themselves are not inspected.\<close>

fun ParseBinaryFilter_parts :: "string list \<Rightarrow> BinaryFilter list \<Rightarrow> filter_error + BinaryFilter list" where
  "ParseBinaryFilter_parts [] result = Inr result"
| "ParseBinaryFilter_parts (p # rest) result =
     (let part = strings_TrimSpace p in
      if part = [] then ParseBinaryFilter_parts rest result
      else (let sub = strings_Split part CHR ''>'' in
            if length sub \<noteq> 2 then Inl (InvalidBinaryFilterFormat part)
            else ParseBinaryFilter_parts rest
                   (result @ [\<lparr>Tool = strings_TrimSpace (sub ! 0),
                               MinVersion = strings_TrimSpace (sub ! 1)\<rparr>])))"

definition ParseBinaryFilter :: "string \<Rightarrow> filter_error + BinaryFilter list" where
  "ParseBinaryFilter filter_str =
     (if filter_str = [] then Inr []
      else ParseBinaryFilter_parts (strings_Split filter_str CHR '','') [])"


section \<open>Minimum-version predicate (internal/common/filters.go)\<close>

text \<open>
  \<open>FilterVersionsByMin\<close> calls \<open>semver.ParseTolerant\<close> and \<open>Version.GTE\<close> of the external
  library \<open>github.com/blang/semver/v4\<close>, which is not part of the repository.  They are the
  parameters \<open>parseTolerant\<close> (\<open>None\<close> for a parse error) and \<open>gte\<close>; the type \<open>'v\<close> stands
  for \<open>semver.Version\<close>.
\<close>

text \<open>The \<open>for _, v := range versions\<close> loop, with \<open>filtered\<close> as the accumulator.\<close>

fun FilterVersionsByMin_loop ::
  "(string \<Rightarrow> 'v option) \<Rightarrow> ('v \<Rightarrow> 'v \<Rightarrow> bool) \<Rightarrow> 'v \<Rightarrow> string list \<Rightarrow> string list \<Rightarrow> string list" where
  "FilterVersionsByMin_loop parseTolerant gte minVer [] filtered = filtered"
| "FilterVersionsByMin_loop parseTolerant gte minVer (v # vs) filtered =
     (case parseTolerant v of
        None \<Rightarrow> FilterVersionsByMin_loop parseTolerant gte minVer vs filtered
      | Some ver \<Rightarrow>
          if gte ver minVer
          then FilterVersionsByMin_loop parseTolerant gte minVer vs (filtered @ [v])
          else FilterVersionsByMin_loop parseTolerant gte minVer vs filtered)"

definition FilterVersionsByMin ::
  "(string \<Rightarrow> 'v option) \<Rightarrow> ('v \<Rightarrow> 'v \<Rightarrow> bool) \<Rightarrow> string list \<Rightarrow> string \<Rightarrow> string list" where
  "FilterVersionsByMin parseTolerant gte versions minVersion =
     (if minVersion = [] then versions
      else (case parseTolerant minVersion of
              None \<Rightarrow> versions
            | Some minVer \<Rightarrow> FilterVersionsByMin_loop parseTolerant gte minVer versions []))"

text \<open>A toy parser for concrete runs: a string of decimal digits is the version with that
  number, anything else does not parse.\<close>

fun digits_value :: "string \<Rightarrow> nat \<Rightarrow> nat option" where
  "digits_value [] acc = Some acc"
| "digits_value (c # cs) acc =
     (if (48::nat) \<le> of_char c \<and> (of_char c :: nat) \<le> 57
      then digits_value cs (10 * acc + (of_char c - 48))
      else None)"

definition parse_digits :: "string \<Rightarrow> nat option" where
  "parse_digits s = (if s = [] then None else digits_value s 0)"

definition nat_gte :: "nat \<Rightarrow> nat \<Rightarrow> bool" where
  "nat_gte a b = (b \<le> a)"


section \<open>Checksum predicate (internal/downloader/service.go)\<close>

text \<open>
  What \<open>os.Stat\<close> can answer for a path: an error for which \<open>os.IsNotExist\<close> holds, any
  other error (permission denied, a path component that is not a directory, a name that
  is too long), or the file's information, of which only \<open>Size()\<close> is read.
\<close>

datatype stat_result = ErrNotExist | ErrOther string | FileInfo nat

type_synonym file_stats = "string \<Rightarrow> stat_result"

text \<open>\<open>fileExists\<close> of package \<open>downloader\<close>: \<open>!os.IsNotExist(err)\<close>.\<close>

definition fileExists :: "file_stats \<Rightarrow> string \<Rightarrow> bool" where
  "fileExists os_Stat path = (os_Stat path \<noteq> ErrNotExist)"

definition statFile :: "file_stats \<Rightarrow> string \<Rightarrow> stat_result" where
  "statFile os_Stat path = os_Stat path"

definition verifyChecksum :: "file_stats \<Rightarrow> string \<Rightarrow> string \<Rightarrow> bool" where
  "verifyChecksum os_Stat filePath expectedChecksum =
     (if expectedChecksum = [] then fileExists os_Stat filePath
      else if \<not> fileExists os_Stat filePath then False
      else (case statFile os_Stat filePath of
              ErrNotExist \<Rightarrow> False
            | ErrOther e \<Rightarrow> False
            | FileInfo sz \<Rightarrow> if sz = 0 then False else True))"

text \<open>A store in which the archive's path cannot be examined: \<open>os.Stat\<close> fails there with
  a permission error.\<close>

definition unreadable_store :: file_stats where
  "unreadable_store path =
     (if path = ''/mirror/registry.terraform.io/acme/thing/terraform-provider-thing_1.0.0_linux_amd64.zip''
      then ErrOther ''permission denied'' else ErrNotExist)"

definition sample_store :: file_stats where
  "sample_store path =
     (if path = ''/mirror/a.zip'' then FileInfo 1024
      else if path = ''/mirror/empty.zip'' then FileInfo 0
      else ErrNotExist)"

section \<open>HTTP transport: GET with retries (internal/common/client.go)\<close>

text \<open>
  \<open>client.Do\<close> is the environment: \<open>client_Do i\<close> is what the \<open>i\<close>-th call (counted from 0)
  of one \<open>GetWithContext\<close> returns, either an error or a response, of which only the status
  code is read.  (\<open>http.Client.Do\<close> returns a non-nil response together with an error only
  when \<open>CheckRedirect\<close> fails; the code closes such a body and otherwise treats the attempt
  as an error, so it is \<open>DoErr\<close>.)

  \<open>time.Duration\<close> is \<open>int64\<close> nanoseconds, so the durations handed to \<open>time.Sleep\<close> are
  64-bit words: \<open>time.Duration(1<<uint(i)) * time.Second\<close> shifts and multiplies modulo
  \<open>2 ^ 64\<close>, and \<open>sint\<close> reads the result.  \<open>time.Sleep\<close> returns at once for a duration that
  is not positive.  The loop counter and \<open>maxRetries\<close> are Go \<open>int\<close>s; the counter starts at
  0 and only counts up, so it is a \<open>nat\<close> here, compared with the integer \<open>maxRetries\<close>
  (which the program always sets to \<open>DefaultMaxRetries = 3\<close>).
\<close>

datatype do_result = DoErr string | DoResp int

type_synonym duration = "64 word"

definition time_Second :: duration where
  "time_Second = 1000000000"

definition waitTime :: "nat \<Rightarrow> duration" where
  "waitTime i = push_bit i 1 * time_Second"

datatype get_error = FailedToCreateRequest string | RequestFailedAfterRetries int string

record get_run =
  resp :: "int option"
  err :: "get_error option"
  attempts :: nat
  sleeps :: "duration list"

text \<open>The \<open>for i := 0; i <= c.maxRetries; i++\<close> loop and the code after it.  \<open>rsp\<close> and
  \<open>lastErr\<close> are the variables \<open>resp\<close> and \<open>lastErr\<close>, \<open>slept\<close> the durations slept so far.\<close>

function GetWithContext_loop ::
  "(nat \<Rightarrow> do_result) \<Rightarrow> int \<Rightarrow> nat \<Rightarrow> int option \<Rightarrow> string option \<Rightarrow> duration list \<Rightarrow> get_run" where
  "GetWithContext_loop client_Do maxRetries i rsp lastErr slept =
     (if int i \<le> maxRetries then
        (case client_Do i of
           DoResp status \<Rightarrow>
             if status < 500
             then \<lparr>resp = Some status, err = None, attempts = Suc i, sleeps = slept\<rparr>
             else GetWithContext_loop client_Do maxRetries (Suc i) (Some status) None
                    (if int i < maxRetries then slept @ [waitTime i] else slept)
         | DoErr e \<Rightarrow>
             GetWithContext_loop client_Do maxRetries (Suc i) None (Some e)
               (if int i < maxRetries then slept @ [waitTime i] else slept))
      else (case lastErr of
              Some e \<Rightarrow> \<lparr>resp = None, err = Some (RequestFailedAfterRetries maxRetries e),
                          attempts = i, sleeps = slept\<rparr>
            | None \<Rightarrow> \<lparr>resp = rsp, err = None, attempts = i, sleeps = slept\<rparr>))"
  by pat_completeness auto
termination
  by (relation "measure (\<lambda>(client_Do, maxRetries, i, rsp, lastErr, slept). nat (maxRetries + 1 - int i))") auto

declare GetWithContext_loop.simps [simp del]

text \<open>\<open>newRequestErr\<close> is the error of \<open>http.NewRequestWithContext\<close> (\<open>None\<close> when the request
  could be built); with an error no request is sent.\<close>

definition GetWithContext :: "string option \<Rightarrow> (nat \<Rightarrow> do_result) \<Rightarrow> int \<Rightarrow> get_run" where
  "GetWithContext newRequestErr client_Do maxRetries =
     (case newRequestErr of
        Some e \<Rightarrow> \<lparr>resp = None, err = Some (FailedToCreateRequest e), attempts = 0, sleeps = []\<rparr>
      | None \<Rightarrow> GetWithContext_loop client_Do maxRetries 0 None None [])"

text \<open>An attempt after which the loop goes on: a transport error, or a status \<open>>= 500\<close>.\<close>

definition retryable :: "do_result \<Rightarrow> bool" where
  "retryable r = (case r of DoErr e \<Rightarrow> True | DoResp status \<Rightarrow> 500 \<le> status)"

definition always_503 :: "nat \<Rightarrow> do_result" where
  "always_503 i = DoResp 503"

definition flaky_then_404 :: "nat \<Rightarrow> do_result" where
  "flaky_then_404 i =
     (if i = 0 then DoErr ''connection reset by peer''
      else if i = 1 then DoResp 503
      else DoResp 404)"

definition bad_gateway :: "nat \<Rightarrow> do_result" where
  "bad_gateway i = (if i = 3 then DoResp 502 else DoResp 500)"

section \<open>Registry client: provider discovery (package downloader)\<close>

text \<open>\<open>%d\<close> of \<open>fmt.Sprintf\<close> for a number that is not negative.\<close>

fun itoa :: "nat \<Rightarrow> string" where
  "itoa n = (if n < 10 then [''0123456789'' ! n]
             else itoa (n div 10) @ [''0123456789'' ! (n mod 10)])"

declare itoa.simps [simp del]

text \<open>
  What \<open>r.client.Get(url)\<close> gives for a URL (the retries of the transport are inside it): an
  error, or a response with a status code and a body.  Of the body the code asks two
  things, \<open>io.ReadAll\<close> and \<open>json.Unmarshal\<close> into a \<open>ProviderList\<close>; both can fail, and
  otherwise the body is the list of its \<open>providers\<close>.  The type \<open>'p\<close> stands for
  \<open>common.ProviderListItem\<close>, whose fields the function never reads.
\<close>

datatype 'p response_body = BodyReadError string | BodyNotJSON string | BodyProviderList "'p list"

datatype 'p http_result = HttpErr string | HttpResp int "'p response_body"

datatype discover_error =
    GetProviderListFailed nat string
  | RegistryReturnedStatus int nat
  | ReadResponseBodyFailed string
  | ParseProviderListFailed string

definition registry_limit :: nat where
  "registry_limit = 100"

definition providers_url :: "string \<Rightarrow> nat \<Rightarrow> nat \<Rightarrow> string" where
  "providers_url baseURL offset limit =
     baseURL @ ''/v1/providers?offset='' @ itoa offset @ ''&limit='' @ itoa limit"

text \<open>
  The \<open>for { ... }\<close> loop of \<open>DiscoverAllProviders\<close>.  Nothing bounds it: against a registry
  that answers every page with 100 items it never returns, so the value is an \<open>option\<close>
  and \<open>None\<close> stands for a run that does not end.  Beside the function's own result
  (error or list) the model returns the URLs requested, in order.  \<open>offset\<close> is a Go \<open>int\<close>
  that starts at 0 and grows by 100 per page.
\<close>

partial_function (option) DiscoverAllProviders_loop ::
  "string \<Rightarrow> (string \<Rightarrow> 'p http_result) \<Rightarrow> nat \<Rightarrow> 'p list \<Rightarrow> string list
    \<Rightarrow> ((discover_error + 'p list) \<times> string list) option" where
  "DiscoverAllProviders_loop baseURL client_Get offset allProviders requested =
     (case client_Get (providers_url baseURL offset registry_limit) of
        HttpErr e \<Rightarrow>
          Some (Inl (GetProviderListFailed offset e),
                requested @ [providers_url baseURL offset registry_limit])
      | HttpResp status body \<Rightarrow>
          if status \<noteq> 200
          then Some (Inl (RegistryReturnedStatus status offset),
                     requested @ [providers_url baseURL offset registry_limit])
          else (case body of
                  BodyReadError e \<Rightarrow>
                    Some (Inl (ReadResponseBodyFailed e),
                          requested @ [providers_url baseURL offset registry_limit])
                | BodyNotJSON e \<Rightarrow>
                    Some (Inl (ParseProviderListFailed e),
                          requested @ [providers_url baseURL offset registry_limit])
                | BodyProviderList providers \<Rightarrow>
                    if length providers = 0
                    then Some (Inr allProviders,
                               requested @ [providers_url baseURL offset registry_limit])
                    else if length providers < registry_limit
                    then Some (Inr (allProviders @ providers),
                               requested @ [providers_url baseURL offset registry_limit])
                    else DiscoverAllProviders_loop baseURL client_Get (offset + registry_limit)
                           (allProviders @ providers)
                           (requested @ [providers_url baseURL offset registry_limit])))"

definition DiscoverAllProviders ::
  "string \<Rightarrow> (string \<Rightarrow> 'p http_result) \<Rightarrow> ((discover_error + 'p list) \<times> string list) option" where
  "DiscoverAllProviders baseURL client_Get = DiscoverAllProviders_loop baseURL client_Get 0 [] []"

text \<open>The providers of the page that \<open>client_Get\<close> serves at an offset.\<close>

definition page_at :: "string \<Rightarrow> (string \<Rightarrow> 'p http_result) \<Rightarrow> nat \<Rightarrow> 'p list" where
  "page_at baseURL client_Get offset =
     (case client_Get (providers_url baseURL offset registry_limit) of
        HttpResp status (BodyProviderList providers) \<Rightarrow> providers
      | _ \<Rightarrow> [])"

text \<open>Two registries for concrete runs: one with 102 providers, served as a full page and
  a page of two, and one with three providers.\<close>

definition two_page_registry :: "string \<Rightarrow> string http_result" where
  "two_page_registry url =
     (if url = ''https://registry.terraform.io/v1/providers?offset=0&limit=100''
      then HttpResp 200 (BodyProviderList (replicate 100 ''hashicorp/aws''))
      else if url = ''https://registry.terraform.io/v1/providers?offset=100&limit=100''
      then HttpResp 200 (BodyProviderList [''acme/thing'', ''acme/other''])
      else HttpResp 404 (BodyNotJSON ''not found''))"

definition small_registry :: "string \<Rightarrow> string http_result" where
  "small_registry url =
     (if url = ''https://registry.terraform.io/v1/providers?offset=0&limit=100''
      then HttpResp 200 (BodyProviderList [''acme/a'', ''acme/b'', ''acme/c''])
      else HttpErr ''unexpected request'')"

section \<open>Metadata journal (internal/downloader/service.go)\<close>

record ProviderInfo =
  Namespace :: string
  Name :: string
  Platforms :: "string list"
  Versions :: "string list"

text \<open>\<open>s.metadata.Providers\<close>, a Go map from \<open>"<namespace>/<name>"\<close> to \<open>ProviderInfo\<close>.\<close>

type_synonym journal = "string \<rightharpoonup> ProviderInfo"

text \<open>\<open>fmt.Sprintf("%s/%s", namespace, name)\<close> and \<open>fmt.Sprintf("%s_%s", osName, archName)\<close>.\<close>

definition provider_key :: "string \<Rightarrow> string \<Rightarrow> string" where
  "provider_key namespace name = namespace @ ''/'' @ name"

definition platform_key :: "string \<Rightarrow> string \<Rightarrow> string" where
  "platform_key osName archName = osName @ ''_'' @ archName"

text \<open>Reading a key that the Go map does not hold gives the zero value (nil slices are
  empty lists here).\<close>

definition zero_ProviderInfo :: ProviderInfo where
  "zero_ProviderInfo = \<lparr>Namespace = [], Name = [], Platforms = [], Versions = []\<rparr>"

text \<open>
  \<open>platformSet\<close> is a \<open>map[string]struct{}\<close>.  It is modelled by the list of its keys, each
  once, in the order of their first insertion; \<open>platformSet_add\<close> is the assignment
  \<open>platformSet[p] = struct{}{}\<close>.
\<close>

definition platformSet_add :: "string list \<Rightarrow> string \<Rightarrow> string list" where
  "platformSet_add keys p = (if p \<in> set keys then keys else keys @ [p])"

fun platformSet_of :: "string list \<Rightarrow> string list \<Rightarrow> string list" where
  "platformSet_of [] keys = keys"
| "platformSet_of (p # ps) keys = platformSet_of ps (platformSet_add keys p)"

text \<open>The loop \<open>for _, v := range providerInfo.Versions { if v == version { ...; break } }\<close>.\<close>

fun versionExists :: "string list \<Rightarrow> string \<Rightarrow> bool" where
  "versionExists [] version = False"
| "versionExists (v # vs) version = (if v = version then True else versionExists vs version)"

text \<open>
  \<open>updateMetadata\<close>, as a function from the journal before to the journal after.  Go leaves
  the order in which \<open>for p := range platformSet\<close> visits the keys unspecified and varies
  it from run to run; the parameter \<open>range_order\<close> is that order, a function that
  rearranges the list of keys.
\<close>

definition updateMetadata ::
  "(string list \<Rightarrow> string list) \<Rightarrow> journal \<Rightarrow> string \<Rightarrow> string \<Rightarrow> string \<Rightarrow> string \<Rightarrow> string \<Rightarrow> journal" where
  "updateMetadata range_order providers namespace name version osName archName =
     (let providerKey = provider_key namespace name;
          providerInfo0 = (case providers providerKey of
                             None \<Rightarrow> zero_ProviderInfo
                           | Some info \<Rightarrow> info);
          providerInfo1 = providerInfo0\<lparr>Namespace := namespace, Name := name\<rparr>;
          platform = platform_key osName archName;
          platformSet = platformSet_add (platformSet_of (Platforms providerInfo1) []) platform;
          providerInfo2 = providerInfo1\<lparr>Platforms := range_order platformSet\<rparr>;
          providerInfo3 = (if versionExists (Versions providerInfo2) version then providerInfo2
                           else providerInfo2\<lparr>Versions := Versions providerInfo2 @ [version]\<rparr>)
      in providers(providerKey \<mapsto> providerInfo3))"

text \<open>Two journal entries that agree up to the order of their version and platform
  lists.\<close>

definition same_up_to_order :: "ProviderInfo \<Rightarrow> ProviderInfo \<Rightarrow> bool" where
  "same_up_to_order a b =
     (Namespace a = Namespace b \<and> Name a = Name b
      \<and> mset (Versions a) = mset (Versions b) \<and> mset (Platforms a) = mset (Platforms b))"

definition sample_journal :: journal where
  "sample_journal =
     Map.empty(''acme/thing'' \<mapsto>
       \<lparr>Namespace = ''acme'', Name = ''thing'',
        Platforms = [''linux_amd64'', ''darwin_arm64''], Versions = [''1.0.0'', ''1.1.0'']\<rparr>)"



section \<open>Provider and platform filters (internal/common/filters.go)\<close>

record ProviderFilterItem =
  ItemNamespace :: string
  ItemName :: string
  ItemMinVersion :: string

text \<open>The two filter structs.  Their fields \<open>providers\<close>, \<open>platforms\<close> and \<open>enabled\<close> carry
  the name of the struct as a prefix, since a record field is a global name.\<close>

record ProviderFilter =
  ProviderFilter_providers :: "string \<rightharpoonup> ProviderFilterItem"
  ProviderFilter_enabled :: bool

record PlatformFilter =
  PlatformFilter_platforms :: "string \<rightharpoonup> bool"
  PlatformFilter_enabled :: bool

definition ProviderFilter_IsEnabled :: "ProviderFilter \<Rightarrow> bool" where
  "ProviderFilter_IsEnabled f = ProviderFilter_enabled f"

definition PlatformFilter_IsEnabled :: "PlatformFilter \<Rightarrow> bool" where
  "PlatformFilter_IsEnabled f = PlatformFilter_enabled f"

definition ProviderFilter_ShouldInclude :: "ProviderFilter \<Rightarrow> string \<Rightarrow> string \<Rightarrow> bool" where
  "ProviderFilter_ShouldInclude f namespace name =
     (if \<not> ProviderFilter_enabled f then True
      else (case ProviderFilter_providers f (provider_key namespace name) of
              None \<Rightarrow> False
            | Some item \<Rightarrow> True))"

text \<open>\<open>f.platforms[platform]\<close> reads a \<open>map[string]bool\<close>: a key that is absent gives
  \<open>false\<close>.\<close>

definition PlatformFilter_ShouldInclude :: "PlatformFilter \<Rightarrow> string \<Rightarrow> string \<Rightarrow> bool" where
  "PlatformFilter_ShouldInclude f osName archName =
     (if \<not> PlatformFilter_enabled f then True
      else (case PlatformFilter_platforms f (platform_key osName archName) of
              None \<Rightarrow> False
            | Some b \<Rightarrow> b))"


section \<open>Planning: which downloads are queued (internal/downloader/service.go)\<close>

text \<open>An \<open>os.DirEntry\<close>, reduced to the two methods \<open>shouldDownload\<close> calls.\<close>

record DirEntry =
  EntryName :: string
  EntryIsDir :: bool

text \<open>\<open>readDir\<close> is \<open>os.ReadDir\<close>: the state of the disk, a function from a directory path to
  an error or to the entries of the directory.\<close>

type_synonym dir_reader = "string \<Rightarrow> string + DirEntry list"

text \<open>\<open>filepath.Join\<close>: empty elements are ignored and the others are joined by the
  separator.  (The lexical cleaning that \<open>filepath.Join\<close> applies to the result, which
  resolves \<open>.\<close>, \<open>..\<close> and doubled separators, is left out; the path is used only as the
  argument of \<open>readDir\<close>.)\<close>

fun join_sep :: "string list \<Rightarrow> string" where
  "join_sep [] = []"
| "join_sep [e] = e"
| "join_sep (e # es) = e @ ''/'' @ join_sep es"

definition filepath_Join :: "string list \<Rightarrow> string" where
  "filepath_Join elems = join_sep (filter (\<lambda>e. e \<noteq> []) elems)"

text \<open>The part of \<open>Service\<close> that \<open>shouldDownload\<close> reads: the two filters, the journal
  \<open>s.metadata.Providers\<close> and \<open>s.config.DownloadPath\<close>.\<close>

record Service =
  providerFilter :: ProviderFilter
  platformFilter :: PlatformFilter
  metadata_Providers :: journal
  config_DownloadPath :: string

definition provider_dir :: "Service \<Rightarrow> string \<Rightarrow> string \<Rightarrow> string" where
  "provider_dir s namespace name =
     filepath_Join [config_DownloadPath s, ''registry.terraform.io'', namespace, name]"

text \<open>\<open>fmt.Sprintf("terraform-provider-%s_%s_%s_%s", name, version, osName, archName)\<close>.\<close>

definition expected_prefix :: "string \<Rightarrow> string \<Rightarrow> string \<Rightarrow> string \<Rightarrow> string" where
  "expected_prefix name version osName archName =
     ''terraform-provider-'' @ name @ ''_'' @ version @ ''_'' @ osName @ ''_'' @ archName"

text \<open>The condition of the \<open>if\<close> inside \<open>for _, file := range files\<close>.\<close>

definition is_provider_file :: "string \<Rightarrow> DirEntry \<Rightarrow> bool" where
  "is_provider_file expectedPrefix file =
     (\<not> EntryIsDir file \<and> strings_HasPrefix (EntryName file) expectedPrefix
      \<and> \<not> strings_HasSuffix (EntryName file) ''.sig''
      \<and> \<not> strings_Contains (EntryName file) ''SHA256SUMS'')"

text \<open>The loop \<open>for _, file := range files\<close>: the first matching entry makes
  \<open>shouldDownload\<close> return \<open>false\<close>; when the loop ends without one, the statement after it
  returns \<open>true\<close>.\<close>

fun shouldDownload_files :: "string \<Rightarrow> DirEntry list \<Rightarrow> bool" where
  "shouldDownload_files expectedPrefix [] = True"
| "shouldDownload_files expectedPrefix (file # files) =
     (if is_provider_file expectedPrefix file then False
      else shouldDownload_files expectedPrefix files)"

text \<open>The loop \<open>for _, v := range providerInfo.Versions\<close>: the directory is read only at
  the first \<open>v\<close> equal to \<open>version\<close>, and that iteration always returns; a failing
  \<open>readDir\<close> falls through to \<open>return true\<close>.  When no \<open>v\<close> equals \<open>version\<close> the function
  returns \<open>true\<close> after the loop.\<close>

fun shouldDownload_versions ::
  "dir_reader \<Rightarrow> string \<Rightarrow> string \<Rightarrow> string \<Rightarrow> string list \<Rightarrow> bool" where
  "shouldDownload_versions readDir providerDir expectedPrefix version [] = True"
| "shouldDownload_versions readDir providerDir expectedPrefix version (v # vs) =
     (if v = version then
        (case readDir providerDir of
           Inr files \<Rightarrow> shouldDownload_files expectedPrefix files
         | Inl e \<Rightarrow> True)
      else shouldDownload_versions readDir providerDir expectedPrefix version vs)"

definition shouldDownload ::
  "dir_reader \<Rightarrow> Service \<Rightarrow> string \<Rightarrow> string \<Rightarrow> string \<Rightarrow> string \<Rightarrow> string \<Rightarrow> bool" where
  "shouldDownload readDir s namespace name version osName archName =
     (if ProviderFilter_IsEnabled (providerFilter s)
         \<and> \<not> ProviderFilter_ShouldInclude (providerFilter s) namespace name then False
      else if PlatformFilter_IsEnabled (platformFilter s)
         \<and> \<not> PlatformFilter_ShouldInclude (platformFilter s) osName archName then False
      else (case metadata_Providers s (provider_key namespace name) of
              None \<Rightarrow> True
            | Some providerInfo \<Rightarrow>
                shouldDownload_versions readDir (provider_dir s namespace name)
                  (expected_prefix name version osName archName) version
                  (Versions providerInfo)))"

text \<open>A platform of \<open>platformsToDownload\<close> (its \<open>OS\<close> and \<open>Arch\<close>) and a \<open>DownloadJob\<close>; the
  fields of the job carry the prefix \<open>Job\<close>.\<close>

record Platform =
  OS :: string
  Arch :: string

record DownloadJob =
  JobNamespace :: string
  JobName :: string
  JobVersion :: string
  JobOS :: string
  JobArch :: string

record plan =
  jobList :: "DownloadJob list"
  totalJobs :: nat
  skippedAtQueue :: nat

text \<open>The loop \<open>for _, platform := range platformsToDownload\<close> of \<open>downloadProviders\<close>, for
  one provider and one of its versions: a job is appended when \<open>shouldDownload\<close> says so,
  and counted as skipped otherwise.\<close>

fun queue_platforms ::
  "dir_reader \<Rightarrow> Service \<Rightarrow> string \<Rightarrow> string \<Rightarrow> string \<Rightarrow> Platform list \<Rightarrow> plan \<Rightarrow> plan" where
  "queue_platforms readDir s namespace name versionStr [] p = p"
| "queue_platforms readDir s namespace name versionStr (platform # rest) p =
     queue_platforms readDir s namespace name versionStr rest
       (if shouldDownload readDir s namespace name versionStr (OS platform) (Arch platform)
        then p\<lparr>jobList := jobList p @
                 [\<lparr>JobNamespace = namespace, JobName = name, JobVersion = versionStr,
                   JobOS = OS platform, JobArch = Arch platform\<rparr>],
               totalJobs := totalJobs p + 1\<rparr>
        else p\<lparr>skippedAtQueue := skippedAtQueue p + 1\<rparr>)"

definition empty_plan :: plan where
  "empty_plan = \<lparr>jobList = [], totalJobs = 0, skippedAtQueue = 0\<rparr>"

text \<open>The two facts the planning decision depends on: the journal lists the version for
  the provider, and the provider's directory can be read and holds a provider file for
  the version and platform.\<close>

definition journal_has_version :: "Service \<Rightarrow> string \<Rightarrow> string \<Rightarrow> string \<Rightarrow> bool" where
  "journal_has_version s namespace name version =
     (case metadata_Providers s (provider_key namespace name) of
        None \<Rightarrow> False
      | Some providerInfo \<Rightarrow> version \<in> set (Versions providerInfo))"

definition archive_on_disk ::
  "dir_reader \<Rightarrow> Service \<Rightarrow> string \<Rightarrow> string \<Rightarrow> string \<Rightarrow> string \<Rightarrow> string \<Rightarrow> bool" where
  "archive_on_disk readDir s namespace name version osName archName =
     (case readDir (provider_dir s namespace name) of
        Inl e \<Rightarrow> False
      | Inr files \<Rightarrow>
          list_ex (is_provider_file (expected_prefix name version osName archName)) files)"

text \<open>A service without filters whose journal is empty, one whose journal is
  \<open>sample_journal\<close>, and a disk whose directory \<open>/mirror/registry.terraform.io/acme/thing\<close>
  holds the archive of version 1.0.0 for linux_amd64 with its checksum and signature
  files.\<close>

definition no_provider_filter :: ProviderFilter where
  "no_provider_filter = \<lparr>ProviderFilter_providers = Map.empty, ProviderFilter_enabled = False\<rparr>"

definition no_platform_filter :: PlatformFilter where
  "no_platform_filter = \<lparr>PlatformFilter_platforms = Map.empty, PlatformFilter_enabled = False\<rparr>"

definition fresh_service :: Service where
  "fresh_service =
     \<lparr>providerFilter = no_provider_filter, platformFilter = no_platform_filter,
      metadata_Providers = Map.empty, config_DownloadPath = ''/mirror''\<rparr>"

definition journaled_service :: Service where
  "journaled_service = fresh_service\<lparr>metadata_Providers := sample_journal\<rparr>"

definition mirrored_disk :: dir_reader where
  "mirrored_disk path =
     (if path = ''/mirror/registry.terraform.io/acme/thing'' then
        Inr [\<lparr>EntryName = ''1.0.0.json'', EntryIsDir = False\<rparr>,
             \<lparr>EntryName = ''terraform-provider-thing_1.0.0_SHA256SUMS'', EntryIsDir = False\<rparr>,
             \<lparr>EntryName = ''terraform-provider-thing_1.0.0_linux_amd64.zip'', EntryIsDir = False\<rparr>]
      else Inl ''no such file or directory'')"



section \<open>Collecting the results of a pass (internal/downloader/service.go)\<close>

record DownloadResult =
  Job :: DownloadJob
  Error :: "string option"
  Skipped :: bool

text \<open>\<open>isTimeoutError\<close>, on an error that may be \<open>nil\<close> (\<open>None\<close>) and is otherwise known by
  its message.\<close>

definition isTimeoutError :: "string option \<Rightarrow> bool" where
  "isTimeoutError e =
     (case e of
        None \<Rightarrow> False
      | Some errStr \<Rightarrow>
          strings_Contains errStr ''timeout'' \<or> strings_Contains errStr ''Client.Timeout''
          \<or> strings_Contains errStr ''deadline'')"

definition getProviderFilename ::
  "string \<Rightarrow> string \<Rightarrow> string \<Rightarrow> string \<Rightarrow> string \<Rightarrow> string" where
  "getProviderFilename namespace name version osName archName =
     ''terraform-provider-'' @ name @ ''_'' @ version @ ''_'' @ osName @ ''_'' @ archName @ ''.zip''"

definition GetProviderPath ::
  "string \<Rightarrow> string \<Rightarrow> string \<Rightarrow> string \<Rightarrow> string \<Rightarrow> string \<Rightarrow> string \<Rightarrow> string" where
  "GetProviderPath basePath namespace name version osName archName filename =
     filepath_Join [basePath, ''registry.terraform.io'', namespace, name, filename]"

text \<open>A Go map used as a set (\<open>map[K]struct{}\<close>), as the list of its keys; \<open>keys_add\<close> is the
  assignment \<open>m[k] = struct{}{}\<close>.\<close>

definition keys_add :: "'a list \<Rightarrow> 'a \<Rightarrow> 'a list" where
  "keys_add keys k = (if k \<in> set keys then keys else keys @ [k])"

text \<open>
  Each iteration of the collection loop runs one \<open>select\<close> over the \<open>results\<close> channel and
  a fresh 30-second timer.  Which case is taken is decided by timing: the receive when a
  worker's result is available before the timer fires, the timer otherwise.
\<close>

datatype select_case = ResultReceived DownloadResult | WatchdogFired

text \<open>The variables the loop updates: the counters, \<open>timeoutJobs\<close>, the two maps used as
  sets, the journal \<open>s.metadata.Providers\<close> that \<open>updateMetadata\<close> writes, and the
  iterations (counted from 1, as logged) at which the watchdog warning was written.\<close>

record collection =
  resultsSent :: nat
  successful :: nat
  failed :: nat
  skipped :: nat
  timeoutJobs :: "DownloadJob list"
  downloadedFiles :: "string list"
  failedJobs :: "DownloadJob list"
  metadata :: journal
  watchdogWarnings :: "nat list"

definition collect_result ::
  "(string list \<Rightarrow> string list) \<Rightarrow> string \<Rightarrow> DownloadResult \<Rightarrow> collection \<Rightarrow> collection" where
  "collect_result range_order downloadPath result c0 =
     (let c = c0\<lparr>resultsSent := resultsSent c0 + 1\<rparr>;
          job = Job result
      in if Error result \<noteq> None then
           (let c1 = c\<lparr>failed := failed c + 1, failedJobs := keys_add (failedJobs c) job\<rparr>
            in if isTimeoutError (Error result)
               then c1\<lparr>timeoutJobs := timeoutJobs c1 @ [job]\<rparr>
               else c1)
         else if Skipped result then
           c\<lparr>skipped := skipped c + 1,
             metadata := updateMetadata range_order (metadata c)
                (JobNamespace job) (JobName job) (JobVersion job) (JobOS job) (JobArch job)\<rparr>
         else
           c\<lparr>successful := successful c + 1,
             metadata := updateMetadata range_order (metadata c)
                (JobNamespace job) (JobName job) (JobVersion job) (JobOS job) (JobArch job),
             downloadedFiles := keys_add (downloadedFiles c)
                (GetProviderPath downloadPath (JobNamespace job) (JobName job) (JobVersion job)
                   (JobOS job) (JobArch job)
                   (getProviderFilename (JobNamespace job) (JobName job) (JobVersion job)
                      (JobOS job) (JobArch job)))\<rparr>)"

definition collect_select ::
  "(string list \<Rightarrow> string list) \<Rightarrow> string \<Rightarrow> nat \<Rightarrow> select_case \<Rightarrow> collection \<Rightarrow> collection" where
  "collect_select range_order downloadPath i taken c =
     (case taken of
        ResultReceived result \<Rightarrow> collect_result range_order downloadPath result c
      | WatchdogFired \<Rightarrow> c\<lparr>watchdogWarnings := watchdogWarnings c @ [i + 1]\<rparr>)"

text \<open>The loop \<open>for i := 0; i < totalJobs; i++ { select { ... } }\<close>; \<open>select_at i\<close> is the
  case taken in iteration \<open>i\<close>.\<close>

function collect_loop ::
  "(string list \<Rightarrow> string list) \<Rightarrow> string \<Rightarrow> (nat \<Rightarrow> select_case) \<Rightarrow> nat \<Rightarrow> nat
     \<Rightarrow> collection \<Rightarrow> collection" where
  "collect_loop range_order downloadPath select_at total_jobs i c =
     (if i < total_jobs
      then collect_loop range_order downloadPath select_at total_jobs (i + 1)
             (collect_select range_order downloadPath i (select_at i) c)
      else c)"
  by pat_completeness auto
termination
  by (relation "measure (\<lambda>(range_order, downloadPath, select_at, total_jobs, i, c). total_jobs - i)") auto

declare collect_loop.simps [simp del]

definition empty_collection :: "journal \<Rightarrow> collection" where
  "empty_collection providers =
     \<lparr>resultsSent = 0, successful = 0, failed = 0, skipped = 0, timeoutJobs = [],
      downloadedFiles = [], failedJobs = [], metadata = providers, watchdogWarnings = []\<rparr>"

definition collect_results ::
  "(string list \<Rightarrow> string list) \<Rightarrow> string \<Rightarrow> (nat \<Rightarrow> select_case) \<Rightarrow> nat \<Rightarrow> journal
     \<Rightarrow> collection" where
  "collect_results range_order downloadPath select_at total_jobs providers =
     collect_loop range_order downloadPath select_at total_jobs 0 (empty_collection providers)"

text \<open>The check after the loop: \<open>if resultsSent != totalJobs\<close> the code logs
  \<open>Mismatch: resultsSent (%d) != totalJobs (%d)\<close> as an error.\<close>

definition mismatch_logged :: "collection \<Rightarrow> nat \<Rightarrow> bool" where
  "mismatch_logged c total_jobs = (resultsSent c \<noteq> total_jobs)"

text \<open>The number of iterations among the first \<open>total_jobs\<close> in which the watchdog fired.\<close>

definition watchdog_ticks :: "(nat \<Rightarrow> select_case) \<Rightarrow> nat \<Rightarrow> nat" where
  "watchdog_ticks select_at total_jobs =
     length (filter (\<lambda>i. select_at i = WatchdogFired) [0..<total_jobs])"

text \<open>
  A pass with two queued jobs, both downloads slower than 30 seconds: in the first
  iteration the watchdog fires, in the second the result of the first job is received.
  The result of the second job reaches the (buffered) channel later and is not read.
\<close>

definition job_one :: DownloadJob where
  "job_one = \<lparr>JobNamespace = ''acme'', JobName = ''thing'', JobVersion = ''2.0.0'',
              JobOS = ''linux'', JobArch = ''amd64''\<rparr>"

definition job_two :: DownloadJob where
  "job_two = \<lparr>JobNamespace = ''acme'', JobName = ''other'', JobVersion = ''0.1.0'',
              JobOS = ''linux'', JobArch = ''amd64''\<rparr>"

definition slow_downloads :: "nat \<Rightarrow> select_case" where
  "slow_downloads i =
     (if i = 1 then ResultReceived \<lparr>Job = job_one, Error = None, Skipped = False\<rparr>
      else WatchdogFired)"



section \<open>Writing files into the store\<close>

text \<open>
  The files of the store are a map from path to contents.  What another process (the
  mirror's server, or the next pass) can observe is every state the store goes through,
  so each operation records the state it leaves: \<open>now\<close> is the current state and \<open>seen\<close>
  the states reached so far, oldest first.
\<close>

type_synonym files = "string \<rightharpoonup> string"

record disk =
  now :: files
  seen :: "files list"

definition disk_step :: "(files \<Rightarrow> files) \<Rightarrow> disk \<Rightarrow> disk" where
  "disk_step f d = \<lparr>now = f (now d), seen = seen d @ [f (now d)]\<rparr>"

text \<open>\<open>os.Create\<close> creates the file or truncates it; a \<open>Write\<close> appends to what the file
  holds; \<open>os.Remove\<close> and \<open>os.Rename\<close> are single steps.\<close>

definition os_Create :: "string \<Rightarrow> disk \<Rightarrow> disk" where
  "os_Create path = disk_step (\<lambda>fs. fs(path \<mapsto> []))"

definition file_Write :: "string \<Rightarrow> string \<Rightarrow> disk \<Rightarrow> disk" where
  "file_Write path chunk =
     disk_step (\<lambda>fs. fs(path \<mapsto> (case fs path of None \<Rightarrow> chunk | Some old \<Rightarrow> old @ chunk)))"

definition os_Remove :: "string \<Rightarrow> disk \<Rightarrow> disk" where
  "os_Remove path = disk_step (\<lambda>fs. fs(path := None))"

definition os_Rename :: "string \<Rightarrow> string \<Rightarrow> disk \<Rightarrow> disk" where
  "os_Rename oldPath newPath = disk_step (\<lambda>fs. (fs(newPath := fs oldPath))(oldPath := None))"

text \<open>An \<open>io.Reader\<close> such as a response body: the chunks it delivers, and how it ends, at
  \<open>EOF\<close> or with an error (a connection that breaks).\<close>

datatype read_end = EOF | ReadError string

record reader =
  chunks :: "string list"
  ending :: read_end

text \<open>\<open>io.Copy(file, reader)\<close>: each chunk is written as it is read; the result is \<open>nil\<close> at
  \<open>EOF\<close> and the reader's error otherwise.  (An error of the write itself, such as a full
  disk, is not modelled; it stops the copy in the same way.)\<close>

fun write_all :: "string \<Rightarrow> string list \<Rightarrow> disk \<Rightarrow> disk" where
  "write_all path [] d = d"
| "write_all path (chunk # rest) d = write_all path rest (file_Write path chunk d)"

definition io_Copy :: "string \<Rightarrow> reader \<Rightarrow> disk \<Rightarrow> string option \<times> disk" where
  "io_Copy path r d =
     ((case ending r of EOF \<Rightarrow> None | ReadError e \<Rightarrow> Some e), write_all path (chunks r) d)"

text \<open>The errors of the operating system calls, as functions of the path: \<open>None\<close> is
  success.\<close>

record faults =
  mkdirErr :: "string \<Rightarrow> string option"
  createErr :: "string \<Rightarrow> string option"
  closeErr :: "string \<Rightarrow> string option"
  renameErr :: "string \<Rightarrow> string \<Rightarrow> string option"

definition no_faults :: faults where
  "no_faults = \<lparr>mkdirErr = (\<lambda>p. None), createErr = (\<lambda>p. None), closeErr = (\<lambda>p. None),
                renameErr = (\<lambda>p q. None)\<rparr>"

datatype file_error =
    FailedToCreateDirectory string string
  | FailedToCreateTemporaryFile string string
  | FailedToWriteFileContent string
  | FailedToCloseFile string
  | FailedToRenameTemporaryFile string
  | ClientGetError string
  | UnexpectedStatusCode int string
  | CreateError string
  | CopyError string

text \<open>\<open>filepath.Dir\<close>: the path without its last element and the separator before it
  (without the lexical cleaning of the result).\<close>

definition filepath_Dir :: "string \<Rightarrow> string" where
  "filepath_Dir path =
     (let d = rev (dropWhile (\<lambda>c. c \<noteq> CHR ''/'') (rev path))
      in if d = [] then ''.'' else if butlast d = [] then ''/'' else butlast d)"


subsection \<open>The registry client's \<open>saveFile\<close> (package downloader)\<close>

text \<open>\<open>saveFile\<close> writes to \<open>destPath + ".tmp"\<close>, removes the temporary file on every error
  and renames it to \<open>destPath\<close> at the end.\<close>

definition saveFile :: "faults \<Rightarrow> reader \<Rightarrow> string \<Rightarrow> disk \<Rightarrow> file_error option \<times> disk" where
  "saveFile fl r destPath d =
     (let dir = filepath_Dir destPath in
      case mkdirErr fl dir of
        Some e \<Rightarrow> (Some (FailedToCreateDirectory dir e), d)
      | None \<Rightarrow>
         (let tempPath = destPath @ ''.tmp'' in
          case createErr fl tempPath of
            Some e \<Rightarrow> (Some (FailedToCreateTemporaryFile tempPath e), d)
          | None \<Rightarrow>
             (case io_Copy tempPath r (os_Create tempPath d) of
                (Some e, d') \<Rightarrow> (Some (FailedToWriteFileContent e), os_Remove tempPath d')
              | (None, d') \<Rightarrow>
                 (case closeErr fl tempPath of
                    Some e \<Rightarrow> (Some (FailedToCloseFile e), os_Remove tempPath d')
                  | None \<Rightarrow>
                     (case renameErr fl tempPath destPath of
                        Some e \<Rightarrow> (Some (FailedToRenameTemporaryFile e), os_Remove tempPath d')
                      | None \<Rightarrow> (None, os_Rename tempPath destPath d'))))))"


subsection \<open>The binaries downloader (internal/downloader/binaries/binaries.go)\<close>

datatype client_response = ClientErr string | ClientResp int reader

text \<open>\<open>downloadFileWithClient\<close> creates \<open>destPath\<close> itself and copies the body into it; the
  deferred \<open>out.Close()\<close> drops its error.\<close>

definition downloadFileWithClient ::
  "(string \<Rightarrow> client_response) \<Rightarrow> faults \<Rightarrow> string \<Rightarrow> string \<Rightarrow> disk \<Rightarrow> file_error option \<times> disk" where
  "downloadFileWithClient client_Get fl url destPath d =
     (case client_Get url of
        ClientErr e \<Rightarrow> (Some (ClientGetError e), d)
      | ClientResp status body \<Rightarrow>
          if status \<noteq> 200 then (Some (UnexpectedStatusCode status url), d)
          else (case createErr fl destPath of
                  Some e \<Rightarrow> (Some (CreateError e), d)
                | None \<Rightarrow>
                   (case io_Copy destPath body (os_Create destPath d) of
                      (Some e, d') \<Rightarrow> (Some (CopyError e), d')
                    | (None, d') \<Rightarrow> (None, d'))))"

text \<open>\<open>fileExists\<close> of package binaries: \<open>os.Stat\<close> succeeds.\<close>

definition binaries_fileExists :: "disk \<Rightarrow> string \<Rightarrow> bool" where
  "binaries_fileExists d path = (now d path \<noteq> None)"

definition zip_name :: "string \<Rightarrow> string \<Rightarrow> Platform \<Rightarrow> string" where
  "zip_name tool version platform =
     tool @ ''_'' @ version @ ''_'' @ OS platform @ ''_'' @ Arch platform @ ''.zip''"

definition release_url :: "string \<Rightarrow> string \<Rightarrow> Platform \<Rightarrow> string" where
  "release_url tool version platform =
     ''https://releases.hashicorp.com/'' @ tool @ ''/'' @ version @ ''/''
       @ zip_name tool version platform"

definition binary_dest_path :: "string \<Rightarrow> string \<Rightarrow> string \<Rightarrow> Platform \<Rightarrow> string" where
  "binary_dest_path downloadPath tool version platform =
     filepath_Join [filepath_Join [downloadPath, tool], zip_name tool version platform]"

datatype binary_outcome =
    SkippedAlreadyExists
  | FailedToCreateDir string
  | DownloadFailed file_error
  | DownloadSuccess

text \<open>The body of the loop over versions and platforms in \<open>DownloadHashiCorpBinaries\<close>,
  for one tool, version and platform.\<close>

definition download_binary ::
  "(string \<Rightarrow> client_response) \<Rightarrow> faults \<Rightarrow> string \<Rightarrow> string \<Rightarrow> string \<Rightarrow> Platform \<Rightarrow> disk
     \<Rightarrow> binary_outcome \<times> disk" where
  "download_binary client_Get fl downloadPath tool version platform d =
     (let url = release_url tool version platform;
          destDir = filepath_Join [downloadPath, tool];
          destPath = filepath_Join [destDir, zip_name tool version platform]
      in if binaries_fileExists d destPath then (SkippedAlreadyExists, d)
         else (case mkdirErr fl destDir of
                 Some e \<Rightarrow> (FailedToCreateDir e, d)
               | None \<Rightarrow>
                  (case downloadFileWithClient client_Get fl url destPath d of
                     (Some e, d') \<Rightarrow> (DownloadFailed e, d')
                   | (None, d') \<Rightarrow> (DownloadSuccess, d'))))"

text \<open>
  An empty store; a release server whose connection breaks after two chunks of the
  consul 1.0.0 archive for linux_amd64; and the same server delivering the whole
  archive.
\<close>

definition empty_disk :: disk where
  "empty_disk = \<lparr>now = Map.empty, seen = []\<rparr>"

definition linux_amd64 :: Platform where
  "linux_amd64 = \<lparr>OS = ''linux'', Arch = ''amd64''\<rparr>"

definition broken_release_server :: "string \<Rightarrow> client_response" where
  "broken_release_server url =
     ClientResp 200 \<lparr>chunks = [''PK'', ''part1''], ending = ReadError ''unexpected EOF''\<rparr>"

definition release_server :: "string \<Rightarrow> client_response" where
  "release_server url =
     ClientResp 200 \<lparr>chunks = [''PK'', ''part1'', ''part2''], ending = EOF\<rparr>"

definition consul_zip :: string where
  "consul_zip = ''/mirror/consul/consul_1.0.0_linux_amd64.zip''"

section \<open>Theorems\<close>

subsection \<open>Binary filter parsing\<close>

lemma strings_Split_nonempty: "strings_Split s sep \<noteq> []"
  by (induction s) (auto split: list.splits)

text \<open>
  Claim C9.  The claim: every non-empty entry of a binary filter string must be
  \<open>tool>version\<close> with both sides present, and parsing fails when the tool side or the
  version side is missing.  The code only counts the pieces around \<open>>\<close>: the entry
  \<open>consul>\<close>, whose version side is missing, is accepted and yields a filter with an empty
  minimum version, and \<open>>1.0\<close> is accepted with an empty tool.  The provider and platform
  filter parsers of the same repository reject an empty side.
\<close>

theorem ParseBinaryFilter_accepts_missing_side:
  "ParseBinaryFilter ''consul>'' = Inr [\<lparr>Tool = ''consul'', MinVersion = ''''\<rparr>]
   \<and> ParseBinaryFilter ''>1.0'' = Inr [\<lparr>Tool = '''', MinVersion = ''1.0''\<rparr>]
   \<and> ParseBinaryFilter ''consul'' = Inl (InvalidBinaryFilterFormat ''consul'')"
  by (simp add: ParseBinaryFilter_def strings_TrimSpace_def isSpace_def)

subsection \<open>Minimum-version predicate\<close>

lemma FilterVersionsByMin_loop_filter:
  "FilterVersionsByMin_loop parseTolerant gte minVer vs filtered =
     filtered @ filter (\<lambda>v. case parseTolerant v of None \<Rightarrow> False | Some ver \<Rightarrow> gte ver minVer) vs"
  by (induction vs arbitrary: filtered) (auto split: option.splits)

text \<open>
  Claim C6.  \<open>FilterVersionsByMin(V, m)\<close> returns \<open>V\<close> unchanged when \<open>m\<close> is empty or does
  not parse; otherwise it returns exactly the subsequence of \<open>V\<close> (same order, same
  multiplicities) of the candidates that parse to a version \<open>\<ge> m\<close>, and candidates that do
  not parse are dropped.
\<close>

theorem FilterVersionsByMin_spec:
  "(minVersion = [] \<or> parseTolerant minVersion = None \<longrightarrow>
      FilterVersionsByMin parseTolerant gte versions minVersion = versions)
   \<and> (\<forall>minVer. minVersion \<noteq> [] \<and> parseTolerant minVersion = Some minVer \<longrightarrow>
      FilterVersionsByMin parseTolerant gte versions minVersion =
        filter (\<lambda>v. \<exists>ver. parseTolerant v = Some ver \<and> gte ver minVer) versions)"
proof -
  have same: "(\<lambda>v. case parseTolerant v of None \<Rightarrow> False | Some ver \<Rightarrow> gte ver minVer) =
              (\<lambda>v. \<exists>ver. parseTolerant v = Some ver \<and> gte ver minVer)" for minVer
    by (auto split: option.splits)
  show ?thesis
    by (auto simp: FilterVersionsByMin_def FilterVersionsByMin_loop_filter same)
qed

theorem FilterVersionsByMin_spec_witness:
  "FilterVersionsByMin parse_digits nat_gte [''1'', ''x'', ''3'', ''2'', ''3''] ''2'' = [''3'', ''2'', ''3'']
   \<and> FilterVersionsByMin parse_digits nat_gte [''1'', ''x'', ''3''] '''' = [''1'', ''x'', ''3'']
   \<and> FilterVersionsByMin parse_digits nat_gte [''1'', ''x'', ''3''] ''v2'' = [''1'', ''x'', ''3'']"
proof -
  have p2: "''2'' \<noteq> [] \<and> parse_digits ''2'' = Some 2"
    by (simp add: parse_digits_def)
  have pe: "parse_digits ''v2'' = None"
    by (simp add: parse_digits_def)
  have a: "FilterVersionsByMin parse_digits nat_gte [''1'', ''x'', ''3'', ''2'', ''3''] ''2'' =
        filter (\<lambda>v. \<exists>ver. parse_digits v = Some ver \<and> nat_gte ver 2) [''1'', ''x'', ''3'', ''2'', ''3'']"
    using FilterVersionsByMin_spec [of "''2''" parse_digits nat_gte "[''1'', ''x'', ''3'', ''2'', ''3'']"] p2
    by blast
  have b: "FilterVersionsByMin parse_digits nat_gte [''1'', ''x'', ''3''] '''' = [''1'', ''x'', ''3'']"
    using FilterVersionsByMin_spec [of "''''" parse_digits nat_gte "[''1'', ''x'', ''3'']"] by simp
  have c: "FilterVersionsByMin parse_digits nat_gte [''1'', ''x'', ''3''] ''v2'' = [''1'', ''x'', ''3'']"
    using FilterVersionsByMin_spec [of "''v2''" parse_digits nat_gte "[''1'', ''x'', ''3'']"] pe by blast
  from a have "FilterVersionsByMin parse_digits nat_gte [''1'', ''x'', ''3'', ''2'', ''3''] ''2'' = [''3'', ''2'', ''3'']"
    by (simp add: parse_digits_def nat_gte_def)
  with b c show ?thesis by simp
qed

subsection \<open>Checksum predicate\<close>

text \<open>
  Claim C4 as stated: \<open>verifyChecksum(P, H)\<close> is true if \<open>H\<close> is empty and the file exists,
  false if the file does not exist or has size zero, and true in every other case.  It
  fails where \<open>os.Stat\<close> answers with an error other than not-exist and \<open>H\<close> is not empty:
  \<open>fileExists\<close> holds there (so the file is not reported missing) and no size of zero is
  reported, yet the result is false.
\<close>

theorem verifyChecksum_inaccessible_counterexample:
  "''abc123'' \<noteq> []
   \<and> fileExists unreadable_store
        ''/mirror/registry.terraform.io/acme/thing/terraform-provider-thing_1.0.0_linux_amd64.zip''
   \<and> statFile unreadable_store
        ''/mirror/registry.terraform.io/acme/thing/terraform-provider-thing_1.0.0_linux_amd64.zip''
       \<noteq> FileInfo 0
   \<and> \<not> verifyChecksum unreadable_store
        ''/mirror/registry.terraform.io/acme/thing/terraform-provider-thing_1.0.0_linux_amd64.zip''
        ''abc123''"
  by (simp add: verifyChecksum_def fileExists_def statFile_def unreadable_store_def)

text \<open>
  Claim C4, amended.  With an empty \<open>H\<close> the result is \<open>fileExists(P)\<close>: true unless
  \<open>os.Stat\<close> reports that \<open>P\<close> does not exist.  With a non-empty \<open>H\<close> the result is false if
  \<open>P\<close> does not exist, if \<open>os.Stat\<close> fails on it for any other reason, or if its size is
  zero, and true in every other case.  The result depends on \<open>os.Stat\<close> and on whether \<open>H\<close>
  is empty only: the contents are never read or hashed and \<open>H\<close> is never compared.
\<close>

theorem verifyChecksum_table:
  "verifyChecksum os_Stat P H =
     (if H = [] then os_Stat P \<noteq> ErrNotExist
      else (case os_Stat P of
              ErrNotExist \<Rightarrow> False
            | ErrOther e \<Rightarrow> False
            | FileInfo sz \<Rightarrow> 0 < sz))"
  by (simp add: verifyChecksum_def fileExists_def statFile_def split: stat_result.splits)

theorem verifyChecksum_table_witness:
  "verifyChecksum sample_store ''/mirror/a.zip'' ''abc123''
   \<and> verifyChecksum sample_store ''/mirror/empty.zip'' ''''
   \<and> \<not> verifyChecksum sample_store ''/mirror/empty.zip'' ''abc123''
   \<and> \<not> verifyChecksum sample_store ''/mirror/missing.zip'' ''''
   \<and> \<not> verifyChecksum sample_store ''/mirror/missing.zip'' ''abc123''"
  using verifyChecksum_table [of sample_store "''/mirror/a.zip''" "''abc123''"]
    verifyChecksum_table [of sample_store "''/mirror/empty.zip''" "''''"]
    verifyChecksum_table [of sample_store "''/mirror/empty.zip''" "''abc123''"]
    verifyChecksum_table [of sample_store "''/mirror/missing.zip''" "''''"]
    verifyChecksum_table [of sample_store "''/mirror/missing.zip''" "''abc123''"]
  by (simp add: sample_store_def)

subsection \<open>HTTP transport\<close>

lemma loop_step_retry:
  "int i \<le> maxRetries \<Longrightarrow> retryable (client_Do i) \<Longrightarrow>
   GetWithContext_loop client_Do maxRetries i rsp lastErr slept =
     GetWithContext_loop client_Do maxRetries (Suc i)
       (case client_Do i of DoErr e \<Rightarrow> None | DoResp status \<Rightarrow> Some status)
       (case client_Do i of DoErr e \<Rightarrow> Some e | DoResp status \<Rightarrow> None)
       (if int i < maxRetries then slept @ [waitTime i] else slept)"
  by (subst GetWithContext_loop.simps) (auto simp: retryable_def split: do_result.splits)

lemma loop_step_return:
  "int i \<le> maxRetries \<Longrightarrow> client_Do i = DoResp status \<Longrightarrow> status < 500 \<Longrightarrow>
   GetWithContext_loop client_Do maxRetries i rsp lastErr slept =
     \<lparr>resp = Some status, err = None, attempts = Suc i, sleeps = slept\<rparr>"
  by (subst GetWithContext_loop.simps) simp

lemma loop_step_exit:
  "\<not> int i \<le> maxRetries \<Longrightarrow>
   GetWithContext_loop client_Do maxRetries i rsp lastErr slept =
     (case lastErr of
        Some e \<Rightarrow> \<lparr>resp = None, err = Some (RequestFailedAfterRetries maxRetries e),
                   attempts = i, sleeps = slept\<rparr>
      | None \<Rightarrow> \<lparr>resp = rsp, err = None, attempts = i, sleeps = slept\<rparr>)"
  by (subst GetWithContext_loop.simps) simp

lemma loop_success:
  "int (i + k) \<le> maxRetries \<Longrightarrow> (\<forall>j<k. retryable (client_Do (i + j))) \<Longrightarrow>
   client_Do (i + k) = DoResp status \<Longrightarrow> status < 500 \<Longrightarrow>
   GetWithContext_loop client_Do maxRetries i rsp lastErr slept =
     \<lparr>resp = Some status, err = None, attempts = Suc (i + k),
      sleeps = slept @ map waitTime [i..<i + k]\<rparr>"
proof (induction k arbitrary: i rsp lastErr slept)
  case 0
  then show ?case by (simp add: loop_step_return)
next
  case (Suc k)
  have r: "retryable (client_Do i)" using Suc.prems(2) by force
  have lt: "int i < maxRetries" using Suc.prems(1) by simp
  have all: "\<forall>j<k. retryable (client_Do (Suc i + j))"
  proof (intro allI impI)
    fix j assume "j < k"
    then have "retryable (client_Do (i + Suc j))" using Suc.prems(2) by blast
    then show "retryable (client_Do (Suc i + j))" by simp
  qed
  have step: "GetWithContext_loop client_Do maxRetries (Suc i) rsp' lastErr' (slept @ [waitTime i]) =
     \<lparr>resp = Some status, err = None, attempts = Suc (Suc i + k),
      sleeps = (slept @ [waitTime i]) @ map waitTime [Suc i..<Suc i + k]\<rparr>" for rsp' lastErr'
    using Suc.IH [of "Suc i" rsp' lastErr' "slept @ [waitTime i]"] Suc.prems(1,3,4) all by simp
  have up: "[i..<i + Suc k] = i # [Suc i..<Suc i + k]"
    by (simp add: upt_conv_Cons del: upt_Suc)
  have "GetWithContext_loop client_Do maxRetries i rsp lastErr slept =
     \<lparr>resp = Some status, err = None, attempts = Suc (Suc i + k),
      sleeps = (slept @ [waitTime i]) @ map waitTime [Suc i..<Suc i + k]\<rparr>"
    using loop_step_retry [where client_Do = client_Do and i = i and maxRetries = maxRetries
        and rsp = rsp and lastErr = lastErr and slept = slept] r lt step by simp
  then show ?case by (simp only: up) simp
qed

lemma loop_exhausted:
  "i + k = nat (maxRetries + 1) \<Longrightarrow> 0 < k \<Longrightarrow> (\<forall>j<k. retryable (client_Do (i + j))) \<Longrightarrow>
   GetWithContext_loop client_Do maxRetries i rsp lastErr slept =
     (case client_Do (nat maxRetries) of
        DoErr e \<Rightarrow> \<lparr>resp = None, err = Some (RequestFailedAfterRetries maxRetries e),
                    attempts = i + k, sleeps = slept @ map waitTime [i..<nat maxRetries]\<rparr>
      | DoResp status \<Rightarrow> \<lparr>resp = Some status, err = None,
                    attempts = i + k, sleeps = slept @ map waitTime [i..<nat maxRetries]\<rparr>)"
proof (induction k arbitrary: i rsp lastErr slept)
  case 0
  then show ?case by simp
next
  case (Suc k)
  have r: "retryable (client_Do i)" using Suc.prems(3) by force
  have le: "int i \<le> maxRetries" using Suc.prems(1) by linarith
  have all: "\<forall>j<k. retryable (client_Do (Suc i + j))"
  proof (intro allI impI)
    fix j assume "j < k"
    then have "retryable (client_Do (i + Suc j))" using Suc.prems(3) by blast
    then show "retryable (client_Do (Suc i + j))" by simp
  qed
  show ?case
  proof (cases "k = 0")
    case True
    then have eq: "nat maxRetries = i" and nlt: "\<not> int i < maxRetries" and ex: "\<not> int (Suc i) \<le> maxRetries"
      using Suc.prems(1) by linarith+
    show ?thesis
      using loop_step_retry [where client_Do = client_Do and i = i and maxRetries = maxRetries
        and rsp = rsp and lastErr = lastErr and slept = slept] le r nlt True
      by (simp add: loop_step_exit [OF ex] eq split: do_result.splits)
  next
    case False
    then have lt: "int i < maxRetries" and lt': "i < nat maxRetries" using Suc.prems(1) by linarith+
    have up: "[i..<nat maxRetries] = i # [Suc i..<nat maxRetries]"
      using lt' by (simp add: upt_conv_Cons)
    have IH: "GetWithContext_loop client_Do maxRetries (Suc i) rsp' lastErr' (slept @ [waitTime i]) =
     (case client_Do (nat maxRetries) of
        DoErr e \<Rightarrow> \<lparr>resp = None, err = Some (RequestFailedAfterRetries maxRetries e),
                    attempts = Suc i + k, sleeps = (slept @ [waitTime i]) @ map waitTime [Suc i..<nat maxRetries]\<rparr>
      | DoResp status \<Rightarrow> \<lparr>resp = Some status, err = None,
                    attempts = Suc i + k, sleeps = (slept @ [waitTime i]) @ map waitTime [Suc i..<nat maxRetries]\<rparr>)"
      for rsp' lastErr'
      using Suc.IH [of "Suc i" rsp' lastErr' "slept @ [waitTime i]"] Suc.prems(1) False all by simp
    show ?thesis
      using loop_step_retry [where client_Do = client_Do and i = i and maxRetries = maxRetries
        and rsp = rsp and lastErr = lastErr and slept = slept] le r lt
      by (simp add: IH up split: do_result.splits)
  qed
qed

lemma sint_word_of_int_64:
  "- (2 ^ 63) \<le> k \<Longrightarrow> k < 2 ^ 63 \<Longrightarrow> sint (word_of_int k :: 64 word) = k"
  by (simp only: sint_sbintrunc') (simp add: signed_take_bit_int_eq_self)

lemma waitTime_seconds: "i < 34 \<Longrightarrow> sint (waitTime i) = 2 ^ i * 1000000000"
proof -
  assume i: "i < 34"
  have b: "(2::int) ^ i * 1000000000 < 2 ^ 63"
  proof -
    have "(2::int) ^ i \<le> 2 ^ 33" using i by (intro power_increasing) auto
    then have "(2::int) ^ i * 1000000000 \<le> 2 ^ 33 * 1000000000" by simp
    also have "\<dots> < 2 ^ 63" by simp
    finally show ?thesis .
  qed
  have nn: "- (2 ^ 63) \<le> (2::int) ^ i * 1000000000"
    by (rule order_trans [of _ 0]) simp_all
  have w: "waitTime i = word_of_int (2 ^ i * 1000000000)"
    by (simp add: waitTime_def time_Second_def push_bit_eq_mult)
  show ?thesis
    unfolding w by (rule sint_word_of_int_64 [OF nn b])
qed

lemma waitTime_34: "sint (waitTime 34) = - 1266874889709551616"
  by (simp add: waitTime_def time_Second_def)


lemma GetWithContext_success:
  assumes "int k \<le> maxRetries" and "\<forall>j<k. retryable (client_Do j)"
    and "client_Do k = DoResp status" and "status < 500"
  shows "GetWithContext None client_Do maxRetries =
     \<lparr>resp = Some status, err = None, attempts = Suc k, sleeps = map waitTime [0..<k]\<rparr>"
  using loop_success [of 0 k maxRetries client_Do status None None "[]"] assms
  by (simp add: GetWithContext_def)

lemma GetWithContext_exhausted:
  assumes "0 \<le> maxRetries" and "\<forall>j. int j \<le> maxRetries \<longrightarrow> retryable (client_Do j)"
  shows "GetWithContext None client_Do maxRetries =
     (case client_Do (nat maxRetries) of
        DoErr e \<Rightarrow> \<lparr>resp = None, err = Some (RequestFailedAfterRetries maxRetries e),
                    attempts = nat maxRetries + 1, sleeps = map waitTime [0..<nat maxRetries]\<rparr>
      | DoResp status \<Rightarrow> \<lparr>resp = Some status, err = None,
                    attempts = nat maxRetries + 1, sleeps = map waitTime [0..<nat maxRetries]\<rparr>)"
proof -
  have k: "0 + (nat maxRetries + 1) = nat (maxRetries + 1)" using assms(1) by simp
  have all: "\<forall>j<nat maxRetries + 1. retryable (client_Do (0 + j))"
    using assms by auto
  show ?thesis
    using loop_exhausted [OF k _ all, of None None "[]"]
    by (simp add: GetWithContext_def split: do_result.splits)
qed

lemma GetWithContext_no_attempt:
  "maxRetries < 0 \<Longrightarrow>
   GetWithContext None client_Do maxRetries = \<lparr>resp = None, err = None, attempts = 0, sleeps = []\<rparr>"
  by (simp add: GetWithContext_def loop_step_exit)

lemma GetWithContext_sleeps_prefix:
  assumes "0 \<le> maxRetries"
  shows "\<exists>n\<le>nat maxRetries.
           attempts (GetWithContext None client_Do maxRetries) = n + 1
           \<and> sleeps (GetWithContext None client_Do maxRetries) = map waitTime [0..<n]"
proof (cases "\<exists>k. int k \<le> maxRetries \<and> \<not> retryable (client_Do k)")
  case True
  define k where "k = (LEAST k. int k \<le> maxRetries \<and> \<not> retryable (client_Do k))"
  have k: "int k \<le> maxRetries \<and> \<not> retryable (client_Do k)"
    unfolding k_def using True by (rule LeastI_ex)
  have before: "\<forall>j<k. retryable (client_Do j)"
  proof (intro allI impI)
    fix j
    assume j: "j < k"
    then have "\<not> (int j \<le> maxRetries \<and> \<not> retryable (client_Do j))"
      unfolding k_def by (rule not_less_Least)
    moreover have "int j \<le> maxRetries" using j k by simp
    ultimately show "retryable (client_Do j)" by simp
  qed
  obtain status where st: "client_Do k = DoResp status" "status < 500"
    using k by (cases "client_Do k") (simp_all add: retryable_def)
  have "GetWithContext None client_Do maxRetries =
     \<lparr>resp = Some status, err = None, attempts = Suc k, sleeps = map waitTime [0..<k]\<rparr>"
    using k before st by (intro GetWithContext_success) simp_all
  moreover have "k \<le> nat maxRetries" using k by linarith
  ultimately show ?thesis by auto
next
  case False
  then have all: "\<forall>j. int j \<le> maxRetries \<longrightarrow> retryable (client_Do j)" by simp
  show ?thesis
    using GetWithContext_exhausted [OF assms all]
    by (intro exI [of _ "nat maxRetries"]) (simp split: do_result.splits)
qed

text \<open>
  Claim C5.  For every GET whose request can be built, with \<open>0 <= maxRetries <= 34\<close> (the
  program uses 3): the attempt that first returns a response with a status below 500 (4xx
  included) ends the call at once, with that response and a nil error, after exactly the
  attempts up to it, every attempt before it having failed with a transport error or a
  status \<open>>= 500\<close>; if every attempt fails in that way, exactly \<open>maxRetries + 1\<close> attempts
  are made, that is \<open>maxRetries\<close> retries; and in every run the sleep between attempts \<open>i\<close>
  and \<open>i + 1\<close> (\<open>i\<close> starting at 0) is \<open>2 ^ i\<close> seconds, with no sleep after the last
  attempt.
\<close>

theorem GetWithContext_retry_policy:
  assumes "0 \<le> maxRetries" and "maxRetries \<le> 34"
  shows "(\<forall>k status. int k \<le> maxRetries \<and> (\<forall>j<k. retryable (client_Do j))
        \<and> client_Do k = DoResp status \<and> status < 500 \<longrightarrow>
      GetWithContext None client_Do maxRetries =
        \<lparr>resp = Some status, err = None, attempts = Suc k, sleeps = map waitTime [0..<k]\<rparr>)
   \<and> ((\<forall>j. int j \<le> maxRetries \<longrightarrow> retryable (client_Do j)) \<longrightarrow>
      attempts (GetWithContext None client_Do maxRetries) = nat maxRetries + 1
      \<and> sleeps (GetWithContext None client_Do maxRetries) = map waitTime [0..<nat maxRetries])
   \<and> attempts (GetWithContext None client_Do maxRetries) \<le> nat maxRetries + 1
   \<and> length (sleeps (GetWithContext None client_Do maxRetries)) + 1
        = attempts (GetWithContext None client_Do maxRetries)
   \<and> (\<forall>i<length (sleeps (GetWithContext None client_Do maxRetries)).
        sint (sleeps (GetWithContext None client_Do maxRetries) ! i) = 2 ^ i * 1000000000)"
proof -
  have c1: "\<forall>k status. int k \<le> maxRetries \<and> (\<forall>j<k. retryable (client_Do j))
        \<and> client_Do k = DoResp status \<and> status < 500 \<longrightarrow>
      GetWithContext None client_Do maxRetries =
        \<lparr>resp = Some status, err = None, attempts = Suc k, sleeps = map waitTime [0..<k]\<rparr>"
    using GetWithContext_success by blast
  have c2: "(\<forall>j. int j \<le> maxRetries \<longrightarrow> retryable (client_Do j)) \<longrightarrow>
      attempts (GetWithContext None client_Do maxRetries) = nat maxRetries + 1
      \<and> sleeps (GetWithContext None client_Do maxRetries) = map waitTime [0..<nat maxRetries]"
  proof
    assume all: "\<forall>j. int j \<le> maxRetries \<longrightarrow> retryable (client_Do j)"
    show "attempts (GetWithContext None client_Do maxRetries) = nat maxRetries + 1
      \<and> sleeps (GetWithContext None client_Do maxRetries) = map waitTime [0..<nat maxRetries]"
      using GetWithContext_exhausted [OF assms(1) all] by (simp split: do_result.splits)
  qed
  obtain n where n: "n \<le> nat maxRetries"
    "attempts (GetWithContext None client_Do maxRetries) = n + 1"
    "sleeps (GetWithContext None client_Do maxRetries) = map waitTime [0..<n]"
    using GetWithContext_sleeps_prefix [OF assms(1)] by blast
  have n34: "n \<le> 34" using n(1) assms(2) by simp
  have c5: "\<forall>i<length (sleeps (GetWithContext None client_Do maxRetries)).
        sint (sleeps (GetWithContext None client_Do maxRetries) ! i) = 2 ^ i * 1000000000"
  proof (intro allI impI)
    fix i
    assume "i < length (sleeps (GetWithContext None client_Do maxRetries))"
    then have i: "i < n" by (simp add: n(3))
    then have "sleeps (GetWithContext None client_Do maxRetries) ! i = waitTime i"
      by (simp add: n(3) del: upt_Suc)
    moreover have "i < 34" using i n34 by simp
    ultimately show "sint (sleeps (GetWithContext None client_Do maxRetries) ! i)
        = 2 ^ i * 1000000000"
      by (simp add: waitTime_seconds)
  qed
  have c3: "attempts (GetWithContext None client_Do maxRetries) \<le> nat maxRetries + 1"
    using n(1,2) by simp
  have c4: "length (sleeps (GetWithContext None client_Do maxRetries)) + 1
        = attempts (GetWithContext None client_Do maxRetries)"
    by (simp add: n(2,3))
  show ?thesis
    using c1 c2 c3 c4 c5 by (intro conjI)
qed

theorem GetWithContext_retry_policy_witness:
  "GetWithContext None flaky_then_404 3 =
     \<lparr>resp = Some 404, err = None, attempts = 3, sleeps = [1000000000, 2000000000]\<rparr>
   \<and> attempts (GetWithContext None always_503 3) = 4
   \<and> sleeps (GetWithContext None always_503 3) = [1000000000, 2000000000, 4000000000]
   \<and> sint (sleeps (GetWithContext None always_503 3) ! 2) = 4000000000"
proof -
  have h1: "int 2 \<le> 3 \<and> (\<forall>j<2. retryable (flaky_then_404 j))
        \<and> flaky_then_404 2 = DoResp 404 \<and> (404::int) < 500"
    by (auto simp: retryable_def flaky_then_404_def less_Suc_eq numeral_2_eq_2)
  have h2: "\<forall>j. int j \<le> 3 \<longrightarrow> retryable (always_503 j)"
    by (simp add: retryable_def always_503_def)
  have r: "(0::int) \<le> 3" "(3::int) \<le> 34" by simp_all
  have u2: "[0..<2] = [0, Suc 0]" and u3: "[0..<3] = [0, Suc 0, 2]"
    by (simp_all add: upt_rec)
  have a: "GetWithContext None flaky_then_404 3 =
        \<lparr>resp = Some 404, err = None, attempts = Suc 2, sleeps = map waitTime [0..<2]\<rparr>"
    using GetWithContext_retry_policy [OF r, of flaky_then_404] h1 by blast
  have b: "attempts (GetWithContext None always_503 3) = nat 3 + 1
      \<and> sleeps (GetWithContext None always_503 3) = map waitTime [0..<nat 3]"
    using GetWithContext_retry_policy [OF r, of always_503] h2 by blast
  have w: "waitTime 0 = 1000000000" "waitTime (Suc 0) = 2000000000" "waitTime 2 = 4000000000"
    by (simp_all add: waitTime_def time_Second_def)
  have l: "length (sleeps (GetWithContext None always_503 3)) = 3"
    using b by (simp add: u3)
  have d: "sint (sleeps (GetWithContext None always_503 3) ! 2) = 2 ^ 2 * 1000000000"
    using GetWithContext_retry_policy [OF r, of always_503] l by simp
  show ?thesis
    using a b d by (simp add: u2 u3 w)
qed

text \<open>
  Claim C10.  If every attempt of \<open>GetWithContext\<close> receives a response with a status
  \<open>>= 500\<close> and no transport error (the request could be built and \<open>maxRetries >= 0\<close>, so
  that there is a last attempt), then all \<open>maxRetries + 1\<close> attempts are made and the
  function returns the response of the last one, a 5xx, with a nil error.
\<close>

theorem GetWithContext_all_5xx_returns_response:
  assumes "0 \<le> maxRetries"
    and "\<forall>j. int j \<le> maxRetries \<longrightarrow> (\<exists>status. client_Do j = DoResp status \<and> 500 \<le> status)"
  shows "\<exists>status. client_Do (nat maxRetries) = DoResp status \<and> 500 \<le> status
     \<and> resp (GetWithContext None client_Do maxRetries) = Some status
     \<and> err (GetWithContext None client_Do maxRetries) = None
     \<and> attempts (GetWithContext None client_Do maxRetries) = nat maxRetries + 1"
proof -
  have r: "\<forall>j. int j \<le> maxRetries \<longrightarrow> retryable (client_Do j)"
    using assms(2) by (auto simp: retryable_def)
  obtain status where s: "client_Do (nat maxRetries) = DoResp status" "500 \<le> status"
    using assms by (metis int_nat_eq order_refl)
  show ?thesis
    using GetWithContext_exhausted [OF assms(1) r] s by simp
qed

theorem GetWithContext_all_5xx_returns_response_witness:
  "resp (GetWithContext None bad_gateway 3) = Some 502
   \<and> err (GetWithContext None bad_gateway 3) = None
   \<and> attempts (GetWithContext None bad_gateway 3) = 4"
proof -
  have h: "\<forall>j. int j \<le> 3 \<longrightarrow> (\<exists>status. bad_gateway j = DoResp status \<and> 500 \<le> status)"
    by (simp add: bad_gateway_def)
  show ?thesis
    using GetWithContext_all_5xx_returns_response [of 3 bad_gateway, OF _ h]
    by (simp add: bad_gateway_def)
qed

subsection \<open>Provider discovery\<close>

lemma DiscoverAllProviders_loop_pages:
  assumes "\<forall>j<k. \<exists>ps. client_Get (providers_url baseURL (registry_limit * (i + j)) registry_limit)
                        = HttpResp 200 (BodyProviderList ps) \<and> registry_limit \<le> length ps"
    and "client_Get (providers_url baseURL (registry_limit * (i + k)) registry_limit)
           = HttpResp 200 (BodyProviderList lastPage)"
    and "length lastPage < registry_limit"
  shows "DiscoverAllProviders_loop baseURL client_Get (registry_limit * i) allProviders requested =
     Some (Inr (allProviders
                  @ concat (map (\<lambda>j. page_at baseURL client_Get (registry_limit * j)) [i..<i + k])
                  @ lastPage),
           requested @ map (\<lambda>j. providers_url baseURL (registry_limit * j) registry_limit)
                         [i..<Suc (i + k)])"
  using assms
proof (induction k arbitrary: i allProviders requested)
  case 0
  then show ?case
    by (subst DiscoverAllProviders_loop.simps) (auto simp: registry_limit_def)
next
  case (Suc k)
  obtain ps where ps: "client_Get (providers_url baseURL (registry_limit * i) registry_limit)
                        = HttpResp 200 (BodyProviderList ps)" "registry_limit \<le> length ps"
    using Suc.prems(1) by force
  have pg: "page_at baseURL client_Get (registry_limit * i) = ps"
    by (simp add: page_at_def ps)
  have all: "\<forall>j<k. \<exists>ps. client_Get (providers_url baseURL (registry_limit * (Suc i + j)) registry_limit)
                        = HttpResp 200 (BodyProviderList ps) \<and> registry_limit \<le> length ps"
  proof (intro allI impI)
    fix j assume "j < k"
    then have "\<exists>ps. client_Get (providers_url baseURL (registry_limit * (i + Suc j)) registry_limit)
                        = HttpResp 200 (BodyProviderList ps) \<and> registry_limit \<le> length ps"
      using Suc.prems(1) by blast
    then show "\<exists>ps. client_Get (providers_url baseURL (registry_limit * (Suc i + j)) registry_limit)
                        = HttpResp 200 (BodyProviderList ps) \<and> registry_limit \<le> length ps"
      by simp
  qed
  have last: "client_Get (providers_url baseURL (registry_limit * (Suc i + k)) registry_limit)
           = HttpResp 200 (BodyProviderList lastPage)"
    using Suc.prems(2) by simp
  have IH: "DiscoverAllProviders_loop baseURL client_Get (registry_limit * Suc i) (allProviders @ ps)
       (requested @ [providers_url baseURL (registry_limit * i) registry_limit]) =
     Some (Inr ((allProviders @ ps)
                  @ concat (map (\<lambda>j. page_at baseURL client_Get (registry_limit * j)) [Suc i..<Suc i + k])
                  @ lastPage),
           (requested @ [providers_url baseURL (registry_limit * i) registry_limit])
             @ map (\<lambda>j. providers_url baseURL (registry_limit * j) registry_limit)
                 [Suc i..<Suc (Suc i + k)])"
    by (rule Suc.IH [OF all last Suc.prems(3)])
  have next_offset: "registry_limit * i + registry_limit = registry_limit * Suc i"
    by simp
  have u1: "[i..<i + Suc k] = i # [Suc i..<Suc i + k]"
    by (simp add: upt_conv_Cons del: upt_Suc)
  have u2: "[i..<Suc (i + Suc k)] = i # [Suc i..<Suc (Suc i + k)]"
    by (simp add: upt_conv_Cons del: upt_Suc)
  have nz: "ps \<noteq> []" "\<not> length ps < registry_limit"
    using ps(2) by (auto simp: registry_limit_def)
  have "DiscoverAllProviders_loop baseURL client_Get (registry_limit * i) allProviders requested =
        DiscoverAllProviders_loop baseURL client_Get (registry_limit * Suc i) (allProviders @ ps)
          (requested @ [providers_url baseURL (registry_limit * i) registry_limit])"
    by (subst DiscoverAllProviders_loop.simps) (simp add: ps(1) nz next_offset del: mult_Suc_right)
  then show ?case
    by (simp only: IH u1 u2) (simp add: pg)
qed

text \<open>
  Claim C8.  \<open>DiscoverAllProviders\<close> requests \<open>/v1/providers?offset=<n>&limit=100\<close> for
  \<open>n = 0, 100, 200, ...\<close> and stops at the first page with fewer than 100 items (zero
  included): if the pages at offsets \<open>0, ..., 100 * (k - 1)\<close> each have at least 100 items
  and the page at \<open>100 * k\<close> has fewer, it returns the concatenation of these pages in
  upstream order after exactly \<open>k + 1\<close> requests, at these offsets in this order.  With
  \<open>k = 0\<close>: a first page of fewer than 100 items means exactly one request.
\<close>

theorem DiscoverAllProviders_pagination:
  assumes "\<forall>j<k. \<exists>ps. client_Get (providers_url baseURL (100 * j) 100)
                        = HttpResp 200 (BodyProviderList ps) \<and> 100 \<le> length ps"
    and "client_Get (providers_url baseURL (100 * k) 100) = HttpResp 200 (BodyProviderList lastPage)"
    and "length lastPage < 100"
  shows "DiscoverAllProviders baseURL client_Get =
     Some (Inr (concat (map (\<lambda>j. page_at baseURL client_Get (100 * j)) [0..<k]) @ lastPage),
           map (\<lambda>j. providers_url baseURL (100 * j) 100) [0..<Suc k])"
  using DiscoverAllProviders_loop_pages [of k client_Get baseURL 0 lastPage "[]" "[]"] assms
  by (simp add: DiscoverAllProviders_def registry_limit_def del: upt_Suc)

theorem DiscoverAllProviders_pagination_witness:
  "DiscoverAllProviders ''https://registry.terraform.io'' two_page_registry =
     Some (Inr (replicate 100 ''hashicorp/aws'' @ [''acme/thing'', ''acme/other'']),
           [''https://registry.terraform.io/v1/providers?offset=0&limit=100'',
            ''https://registry.terraform.io/v1/providers?offset=100&limit=100''])
   \<and> DiscoverAllProviders ''https://registry.terraform.io'' small_registry =
     Some (Inr [''acme/a'', ''acme/b'', ''acme/c''],
           [''https://registry.terraform.io/v1/providers?offset=0&limit=100''])"
proof -
  have i0: "itoa 0 = ''0''" and i100: "itoa 100 = ''100''"
    by (simp_all add: itoa.simps)
  have url0: "providers_url ''https://registry.terraform.io'' 0 100 =
                ''https://registry.terraform.io/v1/providers?offset=0&limit=100''"
    and url100: "providers_url ''https://registry.terraform.io'' 100 100 =
                ''https://registry.terraform.io/v1/providers?offset=100&limit=100''"
    by (simp_all add: providers_url_def i0 i100)
  have full: "\<forall>j<1. \<exists>ps. two_page_registry (providers_url ''https://registry.terraform.io'' (100 * j) 100)
                        = HttpResp 200 (BodyProviderList ps) \<and> 100 \<le> length ps"
    by (simp add: url0 two_page_registry_def)
  have short: "two_page_registry (providers_url ''https://registry.terraform.io'' (100 * 1) 100)
                 = HttpResp 200 (BodyProviderList [''acme/thing'', ''acme/other''])"
    by (simp add: url100 two_page_registry_def)
  have a: "DiscoverAllProviders ''https://registry.terraform.io'' two_page_registry =
     Some (Inr (concat (map (\<lambda>j. page_at ''https://registry.terraform.io'' two_page_registry (100 * j)) [0..<1])
                @ [''acme/thing'', ''acme/other'']),
           map (\<lambda>j. providers_url ''https://registry.terraform.io'' (100 * j) 100) [0..<Suc 1])"
    by (rule DiscoverAllProviders_pagination [OF full short]) simp
  have none: "\<forall>j<0. \<exists>ps. small_registry (providers_url ''https://registry.terraform.io'' (100 * j) 100)
                        = HttpResp 200 (BodyProviderList ps) \<and> 100 \<le> length ps"
    by simp
  have only: "small_registry (providers_url ''https://registry.terraform.io'' (100 * 0) 100)
                 = HttpResp 200 (BodyProviderList [''acme/a'', ''acme/b'', ''acme/c''])"
    by (simp add: url0 small_registry_def)
  have b: "DiscoverAllProviders ''https://registry.terraform.io'' small_registry =
     Some (Inr (concat (map (\<lambda>j. page_at ''https://registry.terraform.io'' small_registry (100 * j)) [0..<0])
                @ [''acme/a'', ''acme/b'', ''acme/c'']),
           map (\<lambda>j. providers_url ''https://registry.terraform.io'' (100 * j) 100) [0..<Suc 0])"
    by (rule DiscoverAllProviders_pagination [OF none only]) simp
  have pg: "page_at ''https://registry.terraform.io'' two_page_registry 0 = replicate 100 ''hashicorp/aws''"
    by (simp add: page_at_def registry_limit_def url0 two_page_registry_def)
  show ?thesis
    using a b by (simp add: pg url0 url100)
qed

subsection \<open>Metadata journal\<close>

lemma set_platformSet_add: "set (platformSet_add keys p) = insert p (set keys)"
  by (auto simp: platformSet_add_def)

lemma distinct_platformSet_add: "distinct keys \<Longrightarrow> distinct (platformSet_add keys p)"
  by (simp add: platformSet_add_def)

lemma set_platformSet_of: "set (platformSet_of ps keys) = set ps \<union> set keys"
  by (induction ps arbitrary: keys) (auto simp: set_platformSet_add)

lemma distinct_platformSet_of: "distinct keys \<Longrightarrow> distinct (platformSet_of ps keys)"
  by (induction ps arbitrary: keys) (auto simp: distinct_platformSet_add)

lemma versionExists_iff: "versionExists vs version \<longleftrightarrow> version \<in> set vs"
  by (induction vs) auto

text \<open>What one update stores under the provider's key, and that it touches no other key.\<close>

lemma updateMetadata_entry:
  "updateMetadata range_order providers namespace name version osName archName
     (provider_key namespace name) =
   Some \<lparr>Namespace = namespace, Name = name,
         Platforms = range_order
           (platformSet_add
              (platformSet_of
                 (Platforms (case providers (provider_key namespace name) of
                               None \<Rightarrow> zero_ProviderInfo | Some info \<Rightarrow> info)) [])
              (platform_key osName archName)),
         Versions =
           (let vs = Versions (case providers (provider_key namespace name) of
                                 None \<Rightarrow> zero_ProviderInfo | Some info \<Rightarrow> info)
            in if version \<in> set vs then vs else vs @ [version])\<rparr>"
  by (simp add: updateMetadata_def Let_def versionExists_iff)

lemma updateMetadata_other:
  "k \<noteq> provider_key namespace name \<Longrightarrow>
   updateMetadata range_order providers namespace name version osName archName k = providers k"
  by (simp add: updateMetadata_def Let_def)

lemma updateMetadata_platforms:
  assumes "\<forall>ks. mset (range_order ks) = mset ks"
    and "updateMetadata range_order providers namespace name version osName archName
           (provider_key namespace name) = Some info'"
  shows "distinct (Platforms info')"
    and "set (Platforms info') =
           insert (platform_key osName archName)
             (set (Platforms (case providers (provider_key namespace name) of
                                None \<Rightarrow> zero_ProviderInfo | Some info \<Rightarrow> info)))"
proof -
  let ?old = "Platforms (case providers (provider_key namespace name) of
                           None \<Rightarrow> zero_ProviderInfo | Some info \<Rightarrow> info)"
  let ?ks = "platformSet_add (platformSet_of ?old []) (platform_key osName archName)"
  have p: "Platforms info' = range_order ?ks"
    using assms(2) by (auto simp: updateMetadata_entry)
  have d: "distinct ?ks"
    by (simp add: distinct_platformSet_add distinct_platformSet_of)
  have m: "mset (range_order ?ks) = mset ?ks" using assms(1) by blast
  show "distinct (Platforms info')"
    using d mset_eq_imp_distinct_iff [OF m] by (simp add: p)
  show "set (Platforms info') = insert (platform_key osName archName) (set ?old)"
    using mset_eq_setD [OF m] by (simp add: p set_platformSet_add set_platformSet_of)
qed

lemma updateMetadata_versions:
  assumes "updateMetadata range_order providers namespace name version osName archName
           (provider_key namespace name) = Some info'"
  shows "version \<in> set (Versions info')"
    and "version \<in> set (Versions (case providers (provider_key namespace name) of
                                None \<Rightarrow> zero_ProviderInfo | Some info \<Rightarrow> info))
         \<Longrightarrow> Versions info' = Versions (case providers (provider_key namespace name) of
                                None \<Rightarrow> zero_ProviderInfo | Some info \<Rightarrow> info)"
  using assms by (auto simp: updateMetadata_entry Let_def)

text \<open>
  Claim C7.  The journal update has set semantics and is idempotent: whatever orders the
  two map iterations take, applying \<open>updateMetadata\<close> for the same tuple a second time
  gives the journal of the first application up to the order of the platform list (the
  version list is the same list, and every other key is untouched); and inserting a
  version and platform that the entry already lists leaves the entry's version list as
  it is and its set of platforms unchanged, with no duplicate introduced (the platform
  list comes out without duplicates, and no element occurs more often than before).
\<close>

theorem updateMetadata_idempotent:
  assumes "\<forall>ks. mset (order1 ks) = mset ks" and "\<forall>ks. mset (order2 ks) = mset ks"
    and "s1 = updateMetadata order1 s namespace name version osName archName"
    and "s2 = updateMetadata order2 s1 namespace name version osName archName"
  shows "(\<forall>k. k \<noteq> provider_key namespace name \<longrightarrow> s2 k = s1 k)
   \<and> (\<exists>i1 i2. s1 (provider_key namespace name) = Some i1 \<and> s2 (provider_key namespace name) = Some i2
        \<and> same_up_to_order i2 i1 \<and> Versions i2 = Versions i1
        \<and> distinct (Platforms i1) \<and> distinct (Platforms i2))
   \<and> (\<forall>info. s (provider_key namespace name) = Some info \<and> version \<in> set (Versions info)
          \<and> platform_key osName archName \<in> set (Platforms info) \<longrightarrow>
        (\<exists>i1. s1 (provider_key namespace name) = Some i1
           \<and> Versions i1 = Versions info
           \<and> set (Platforms i1) = set (Platforms info)
           \<and> distinct (Platforms i1)
           \<and> mset (Platforms i1) \<subseteq># mset (Platforms info)))"
proof (intro conjI allI impI)
  fix k assume "k \<noteq> provider_key namespace name"
  then show "s2 k = s1 k" by (simp add: assms(4) updateMetadata_other)
next
  obtain i1 where i1: "s1 (provider_key namespace name) = Some i1"
    by (simp add: assms(3) updateMetadata_entry)
  obtain i2 where i2: "s2 (provider_key namespace name) = Some i2"
    by (simp add: assms(4) updateMetadata_entry)
  have e1: "updateMetadata order1 s namespace name version osName archName
              (provider_key namespace name) = Some i1"
    using i1 assms(3) by simp
  have e2: "updateMetadata order2 s1 namespace name version osName archName
              (provider_key namespace name) = Some i2"
    using i2 assms(4) by simp
  have old2: "(case s1 (provider_key namespace name) of None \<Rightarrow> zero_ProviderInfo | Some info \<Rightarrow> info) = i1"
    by (simp add: i1)
  have d1: "distinct (Platforms i1)"
    by (rule updateMetadata_platforms(1) [OF assms(1) e1])
  have d2: "distinct (Platforms i2)"
    by (rule updateMetadata_platforms(1) [OF assms(2) e2])
  have p1: "platform_key osName archName \<in> set (Platforms i1)"
    using updateMetadata_platforms(2) [OF assms(1) e1] by simp
  have "set (Platforms i2) = insert (platform_key osName archName) (set (Platforms i1))"
    using updateMetadata_platforms(2) [OF assms(2) e2] by (simp add: old2)
  then have "set (Platforms i2) = set (Platforms i1)" using p1 by auto
  then have mp: "mset (Platforms i2) = mset (Platforms i1)"
    using d1 d2 by (simp add: set_eq_iff_mset_eq_distinct)
  have v1: "version \<in> set (Versions i1)"
    by (rule updateMetadata_versions(1) [OF e1])
  have vs: "Versions i2 = Versions i1"
    using updateMetadata_versions(2) [OF e2] v1 by (simp add: old2)
  have nn: "Namespace i2 = Namespace i1" "Name i2 = Name i1"
    using e1 e2 by (auto simp: updateMetadata_entry)
  show "\<exists>i1 i2. s1 (provider_key namespace name) = Some i1 \<and> s2 (provider_key namespace name) = Some i2
        \<and> same_up_to_order i2 i1 \<and> Versions i2 = Versions i1
        \<and> distinct (Platforms i1) \<and> distinct (Platforms i2)"
    using i1 i2 mp vs nn d1 d2 by (simp add: same_up_to_order_def)
next
  fix info
  assume a: "s (provider_key namespace name) = Some info \<and> version \<in> set (Versions info)
          \<and> platform_key osName archName \<in> set (Platforms info)"
  obtain i1 where i1: "s1 (provider_key namespace name) = Some i1"
    by (simp add: assms(3) updateMetadata_entry)
  have e1: "updateMetadata order1 s namespace name version osName archName
              (provider_key namespace name) = Some i1"
    using i1 assms(3) by simp
  have old: "(case s (provider_key namespace name) of None \<Rightarrow> zero_ProviderInfo | Some info \<Rightarrow> info) = info"
    using a by simp
  have vs: "Versions i1 = Versions info"
    using updateMetadata_versions(2) [OF e1] a by (simp add: old)
  have d1: "distinct (Platforms i1)"
    by (rule updateMetadata_platforms(1) [OF assms(1) e1])
  have "set (Platforms i1) = insert (platform_key osName archName) (set (Platforms info))"
    using updateMetadata_platforms(2) [OF assms(1) e1] by (simp add: old)
  then have sp: "set (Platforms i1) = set (Platforms info)" using a by auto
  have "mset (Platforms i1) = mset (remdups (Platforms info))"
    using d1 sp by (simp add: set_eq_iff_mset_eq_distinct [symmetric])
  then have sub: "mset (Platforms i1) \<subseteq># mset (Platforms info)"
    by (simp add: mset_remdups_subset_eq)
  show "\<exists>i1. s1 (provider_key namespace name) = Some i1
           \<and> Versions i1 = Versions info
           \<and> set (Platforms i1) = set (Platforms info)
           \<and> distinct (Platforms i1)
           \<and> mset (Platforms i1) \<subseteq># mset (Platforms info)"
    using i1 vs sp d1 sub by simp
qed

theorem updateMetadata_idempotent_witness:
  "\<exists>i1 i2.
     updateMetadata rev sample_journal ''acme'' ''thing'' ''1.1.0'' ''linux'' ''amd64''
       (provider_key ''acme'' ''thing'') = Some i1
     \<and> updateMetadata id
         (updateMetadata rev sample_journal ''acme'' ''thing'' ''1.1.0'' ''linux'' ''amd64'')
         ''acme'' ''thing'' ''1.1.0'' ''linux'' ''amd64'' (provider_key ''acme'' ''thing'') = Some i2
     \<and> same_up_to_order i2 i1
     \<and> Versions i2 = Versions i1
     \<and> Versions i1 = [''1.0.0'', ''1.1.0'']
     \<and> Platforms i1 = [''darwin_arm64'', ''linux_amd64'']
     \<and> mset (Platforms i1) \<subseteq># mset [''linux_amd64'', ''darwin_arm64'']"
proof -
  have h1: "\<forall>ks::string list. mset (rev ks) = mset ks" by simp
  have h2: "\<forall>ks::string list. mset (id ks) = mset ks" by simp
  have old: "sample_journal (provider_key ''acme'' ''thing'') =
               Some \<lparr>Namespace = ''acme'', Name = ''thing'',
                     Platforms = [''linux_amd64'', ''darwin_arm64''],
                     Versions = [''1.0.0'', ''1.1.0'']\<rparr>
             \<and> ''1.1.0'' \<in> set (Versions \<lparr>Namespace = ''acme'', Name = ''thing'',
                     Platforms = [''linux_amd64'', ''darwin_arm64''],
                     Versions = [''1.0.0'', ''1.1.0'']\<rparr>)
             \<and> platform_key ''linux'' ''amd64'' \<in> set (Platforms \<lparr>Namespace = ''acme'', Name = ''thing'',
                     Platforms = [''linux_amd64'', ''darwin_arm64''],
                     Versions = [''1.0.0'', ''1.1.0'']\<rparr>)"
    by (simp add: sample_journal_def provider_key_def platform_key_def)
  note T = updateMetadata_idempotent [where ?order1.0 = rev and ?order2.0 = id
      and s = sample_journal and namespace = "''acme''" and name = "''thing''"
      and version = "''1.1.0''" and osName = "''linux''" and archName = "''amd64''",
      OF h1 h2 refl refl]
  from T obtain i1 i2 where
    i: "updateMetadata rev sample_journal ''acme'' ''thing'' ''1.1.0'' ''linux'' ''amd64''
          (provider_key ''acme'' ''thing'') = Some i1"
       "updateMetadata id
         (updateMetadata rev sample_journal ''acme'' ''thing'' ''1.1.0'' ''linux'' ''amd64'')
         ''acme'' ''thing'' ''1.1.0'' ''linux'' ''amd64'' (provider_key ''acme'' ''thing'') = Some i2"
       "same_up_to_order i2 i1" "Versions i2 = Versions i1"
    by blast
  from T old i(1) have
    j: "Versions i1 = [''1.0.0'', ''1.1.0'']"
       "mset (Platforms i1) \<subseteq># mset [''linux_amd64'', ''darwin_arm64'']"
    by auto
  have "updateMetadata rev sample_journal ''acme'' ''thing'' ''1.1.0'' ''linux'' ''amd64''
          (provider_key ''acme'' ''thing'') =
        Some \<lparr>Namespace = ''acme'', Name = ''thing'',
              Platforms = [''darwin_arm64'', ''linux_amd64''],
              Versions = [''1.0.0'', ''1.1.0'']\<rparr>"
    by (simp add: updateMetadata_def Let_def sample_journal_def provider_key_def platform_key_def
        platformSet_add_def)
  with i(1) have p: "Platforms i1 = [''darwin_arm64'', ''linux_amd64'']" by auto
  show ?thesis
    using i j p by blast
qed



subsection \<open>Planning\<close>

lemma shouldDownload_files_list_ex:
  "shouldDownload_files expectedPrefix files = (\<not> list_ex (is_provider_file expectedPrefix) files)"
  by (induction files) simp_all

lemma shouldDownload_versions_iff:
  "shouldDownload_versions readDir providerDir expectedPrefix version vs =
     (\<not> (version \<in> set vs
         \<and> (case readDir providerDir of
               Inl e \<Rightarrow> False
             | Inr files \<Rightarrow> list_ex (is_provider_file expectedPrefix) files)))"
  by (induction vs) (auto simp add: shouldDownload_files_list_ex split: sum.splits)

lemma shouldDownload_iff:
  "shouldDownload readDir s namespace name version osName archName =
     (ProviderFilter_ShouldInclude (providerFilter s) namespace name
      \<and> PlatformFilter_ShouldInclude (platformFilter s) osName archName
      \<and> \<not> (journal_has_version s namespace name version
            \<and> archive_on_disk readDir s namespace name version osName archName))"
  by (auto simp add: shouldDownload_def shouldDownload_versions_iff journal_has_version_def
      archive_on_disk_def ProviderFilter_ShouldInclude_def PlatformFilter_ShouldInclude_def
      ProviderFilter_IsEnabled_def PlatformFilter_IsEnabled_def
      split: option.splits sum.splits)

lemma queue_platforms_jobList:
  "jobList (queue_platforms readDir s namespace name versionStr platforms p) =
     jobList p @
     map (\<lambda>platform. \<lparr>JobNamespace = namespace, JobName = name, JobVersion = versionStr,
                       JobOS = OS platform, JobArch = Arch platform\<rparr>)
       (filter (\<lambda>platform. shouldDownload readDir s namespace name versionStr
                  (OS platform) (Arch platform)) platforms)"
  by (induction platforms arbitrary: p) simp_all

text \<open>
  Claim C2, as stated, fails: the journal is consulted before the disk.  With no filters
  and an empty journal, the archive of acme/thing 1.0.0 for linux_amd64 lies in the
  provider's directory and the job is queued all the same.
\<close>

theorem shouldDownload_ignores_disk_without_journal_counterexample:
  "archive_on_disk mirrored_disk fresh_service ''acme'' ''thing'' ''1.0.0'' ''linux'' ''amd64''
   \<and> shouldDownload mirrored_disk fresh_service ''acme'' ''thing'' ''1.0.0'' ''linux'' ''amd64''
   \<and> jobList (queue_platforms mirrored_disk fresh_service ''acme'' ''thing'' ''1.0.0''
        [\<lparr>OS = ''linux'', Arch = ''amd64''\<rparr>] empty_plan) =
       [\<lparr>JobNamespace = ''acme'', JobName = ''thing'', JobVersion = ''1.0.0'',
         JobOS = ''linux'', JobArch = ''amd64''\<rparr>]"
  by (simp add: archive_on_disk_def shouldDownload_def fresh_service_def mirrored_disk_def
      provider_dir_def filepath_Join_def expected_prefix_def is_provider_file_def
      strings_HasPrefix_def strings_HasSuffix_def no_provider_filter_def no_platform_filter_def
      ProviderFilter_IsEnabled_def PlatformFilter_IsEnabled_def provider_key_def
      empty_plan_def suffix_def)

text \<open>
  Claim C2, amended: during planning, for every combination (namespace, name, version,
  os, arch) that survives the provider and platform filters, a download job is queued
  if and only if it is not the case that both the journal lists the version under the
  provider and the provider's directory can be read and holds an entry that is not a
  directory, whose name begins with \<open>terraform-provider-<name>_<version>_<os>_<arch>\<close>,
  does not end in \<open>.sig\<close> and does not contain \<open>SHA256SUMS\<close>.  The archive on disk
  pre-skips the job only together with the journal entry.
\<close>

theorem shouldDownload_journal_then_disk:
  assumes "ProviderFilter_ShouldInclude (providerFilter s) namespace name"
    and "PlatformFilter_ShouldInclude (platformFilter s) (OS platform) (Arch platform)"
    and "platform \<in> set platforms"
  shows "((\<lparr>JobNamespace = namespace, JobName = name, JobVersion = version,
            JobOS = OS platform, JobArch = Arch platform\<rparr>
             \<in> set (jobList (queue_platforms readDir s namespace name version platforms empty_plan)))
          = (\<not> (journal_has_version s namespace name version
                \<and> archive_on_disk readDir s namespace name version (OS platform) (Arch platform))))
       \<and> (shouldDownload readDir s namespace name version (OS platform) (Arch platform)
          = (\<not> (journal_has_version s namespace name version
                \<and> archive_on_disk readDir s namespace name version (OS platform) (Arch platform))))"
proof -
  have sd: "shouldDownload readDir s namespace name version (OS platform) (Arch platform)
         = (\<not> (journal_has_version s namespace name version
               \<and> archive_on_disk readDir s namespace name version (OS platform) (Arch platform)))"
    using assms(1,2) by (simp add: shouldDownload_iff)
  have "(\<lparr>JobNamespace = namespace, JobName = name, JobVersion = version,
           JobOS = OS platform, JobArch = Arch platform\<rparr>
            \<in> set (jobList (queue_platforms readDir s namespace name version platforms empty_plan)))
        = (\<exists>q \<in> set platforms. OS platform = OS q \<and> Arch platform = Arch q
             \<and> shouldDownload readDir s namespace name version (OS q) (Arch q))"
    unfolding queue_platforms_jobList empty_plan_def by (simp add: image_iff) blast
  also have "\<dots> = shouldDownload readDir s namespace name version (OS platform) (Arch platform)"
    using assms(3) by auto
  finally show ?thesis
    using sd by simp
qed

theorem shouldDownload_journal_then_disk_witness:
  "ProviderFilter_ShouldInclude (providerFilter journaled_service) ''acme'' ''thing''
   \<and> PlatformFilter_ShouldInclude (platformFilter journaled_service) ''linux'' ''amd64''
   \<and> journal_has_version journaled_service ''acme'' ''thing'' ''1.0.0''
   \<and> archive_on_disk mirrored_disk journaled_service ''acme'' ''thing'' ''1.0.0'' ''linux'' ''amd64''
   \<and> \<lparr>JobNamespace = ''acme'', JobName = ''thing'', JobVersion = ''1.0.0'',
        JobOS = ''linux'', JobArch = ''amd64''\<rparr>
        \<notin> set (jobList (queue_platforms mirrored_disk journaled_service ''acme'' ''thing'' ''1.0.0''
                 [\<lparr>OS = ''linux'', Arch = ''amd64''\<rparr>, \<lparr>OS = ''darwin'', Arch = ''arm64''\<rparr>]
                 empty_plan))
   \<and> \<not> shouldDownload mirrored_disk journaled_service ''acme'' ''thing'' ''1.0.0'' ''linux'' ''amd64''"
proof -
  have f: "ProviderFilter_ShouldInclude (providerFilter journaled_service) ''acme'' ''thing''"
    "PlatformFilter_ShouldInclude (platformFilter journaled_service) ''linux'' ''amd64''"
    by (simp_all add: journaled_service_def fresh_service_def no_provider_filter_def
        no_platform_filter_def ProviderFilter_ShouldInclude_def PlatformFilter_ShouldInclude_def)
  have j: "journal_has_version journaled_service ''acme'' ''thing'' ''1.0.0''"
    by (simp add: journal_has_version_def journaled_service_def fresh_service_def
        sample_journal_def provider_key_def)
  have d: "archive_on_disk mirrored_disk journaled_service ''acme'' ''thing'' ''1.0.0'' ''linux'' ''amd64''"
    by (simp add: archive_on_disk_def journaled_service_def fresh_service_def mirrored_disk_def
        provider_dir_def filepath_Join_def expected_prefix_def is_provider_file_def
        strings_HasPrefix_def strings_HasSuffix_def suffix_def)
  show ?thesis
    using shouldDownload_journal_then_disk [where s = journaled_service
        and namespace = "''acme''" and name = "''thing''" and version = "''1.0.0''"
        and platform = "\<lparr>OS = ''linux'', Arch = ''amd64''\<rparr>"
        and platforms = "[\<lparr>OS = ''linux'', Arch = ''amd64''\<rparr>, \<lparr>OS = ''darwin'', Arch = ''arm64''\<rparr>]"
        and readDir = mirrored_disk]
      f j d
    by (simp del: queue_platforms.simps)
qed



subsection \<open>Collecting results\<close>

lemma resultsSent_collect_select:
  "resultsSent (collect_select range_order downloadPath i taken c) =
     resultsSent c + (if taken = WatchdogFired then 0 else 1)"
  by (cases taken)
     (simp_all add: collect_select_def collect_result_def Let_def)

lemma collect_loop_resultsSent:
  "resultsSent (collect_loop range_order downloadPath select_at total_jobs i c) =
     resultsSent c + length (filter (\<lambda>j. select_at j \<noteq> WatchdogFired) [i..<total_jobs])"
proof (induction range_order downloadPath select_at total_jobs i c rule: collect_loop.induct)
  case (1 range_order downloadPath select_at total_jobs i c)
  show ?case
  proof (cases "i < total_jobs")
    case True
    then have up: "[i..<total_jobs] = i # [i + 1..<total_jobs]"
      by (simp add: upt_conv_Cons)
    show ?thesis
      using True 1
      by (subst collect_loop.simps) (simp add: up resultsSent_collect_select)
  next
    case False
    then show ?thesis
      by (subst collect_loop.simps) simp
  qed
qed

lemma filter_ticks_complement:
  "length (filter (\<lambda>j. select_at j \<noteq> WatchdogFired) xs)
     + length (filter (\<lambda>j. select_at j = WatchdogFired) xs) = length xs"
  by (induction xs) simp_all

text \<open>
  Claim C3 against the code.  Every iteration of the collection loop is used up by
  whichever case of the \<open>select\<close> is taken, so the results received and the watchdog
  ticks together number \<open>totalJobs\<close>: each tick lowers the number of outcomes consumed by
  one.  With two queued jobs and a tick in the first iteration, the loop ends after
  receiving one outcome; the second job's outcome is never read, its journal entry is
  not written, and the code's own check \<open>resultsSent != totalJobs\<close> reports the mismatch.
\<close>

theorem collect_results_tick_consumes_iteration:
  "resultsSent (collect_results range_order downloadPath select_at total_jobs providers)
     + watchdog_ticks select_at total_jobs = total_jobs
   \<and> resultsSent (collect_results id ''/mirror'' slow_downloads 2 Map.empty) = 1
   \<and> successful (collect_results id ''/mirror'' slow_downloads 2 Map.empty) = 1
   \<and> failed (collect_results id ''/mirror'' slow_downloads 2 Map.empty) = 0
   \<and> skipped (collect_results id ''/mirror'' slow_downloads 2 Map.empty) = 0
   \<and> watchdogWarnings (collect_results id ''/mirror'' slow_downloads 2 Map.empty) = [1]
   \<and> metadata (collect_results id ''/mirror'' slow_downloads 2 Map.empty)
        (provider_key (JobNamespace job_two) (JobName job_two)) = None
   \<and> mismatch_logged (collect_results id ''/mirror'' slow_downloads 2 Map.empty) 2"
proof -
  have g: "resultsSent (collect_results range_order downloadPath select_at total_jobs providers)
     + watchdog_ticks select_at total_jobs = total_jobs"
    using filter_ticks_complement [of select_at "[0..<total_jobs]"]
    by (simp add: collect_results_def collect_loop_resultsSent watchdog_ticks_def
        empty_collection_def)
  have run: "collect_results id ''/mirror'' slow_downloads 2 Map.empty =
     collect_result id ''/mirror'' \<lparr>Job = job_one, Error = None, Skipped = False\<rparr>
       ((empty_collection Map.empty)\<lparr>watchdogWarnings := [1]\<rparr>)"
    unfolding collect_results_def
    apply (subst collect_loop.simps)
    apply (subst collect_loop.simps)
    apply (subst collect_loop.simps)
    apply (simp add: collect_select_def slow_downloads_def empty_collection_def)
    done
  have m: "metadata (collect_results id ''/mirror'' slow_downloads 2 Map.empty)
        (provider_key (JobNamespace job_two) (JobName job_two)) = None"
    by (simp add: run collect_result_def Let_def empty_collection_def job_one_def job_two_def
        updateMetadata_def provider_key_def)
  show ?thesis
    using g m
    by (simp add: run collect_result_def Let_def empty_collection_def mismatch_logged_def)
qed



subsection \<open>Writing files\<close>

lemma write_all_other_path:
  assumes "p \<noteq> path" and "now d p = v" and "\<forall>f \<in> set (seen d). f p = v"
  shows "now (write_all path cs d) p = v \<and> (\<forall>f \<in> set (seen (write_all path cs d)). f p = v)"
  using assms
proof (induction cs arbitrary: d)
  case Nil
  then show ?case by simp
next
  case (Cons c cs)
  have "now (file_Write path c d) p = v"
    using Cons.prems by (simp add: file_Write_def disk_step_def)
  moreover have "\<forall>f \<in> set (seen (file_Write path c d)). f p = v"
    using Cons.prems by (simp add: file_Write_def disk_step_def)
  ultimately show ?case
    using Cons.IH [of "file_Write path c d"] Cons.prems(1) by simp
qed

lemma write_all_content:
  "now (write_all path cs d) path =
     (if cs = [] then now d path
      else Some ((case now d path of None \<Rightarrow> [] | Some old \<Rightarrow> old) @ concat cs))"
proof (induction cs arbitrary: d)
  case Nil
  then show ?case by simp
next
  case (Cons c cs)
  show ?case
    by (simp add: Cons.IH file_Write_def disk_step_def split: option.splits)
qed

text \<open>The sibling \<open>saveFile\<close> keeps the promise: started in a store with no recorded
  states, at every state it goes through the final name holds what it held before, or
  the whole content of a reader that ended at \<open>EOF\<close>.\<close>

lemma saveFile_atomic:
  assumes "seen d = []"
  shows "\<forall>f \<in> set (seen (snd (saveFile fl r destPath d))).
           f destPath = now d destPath
           \<or> (ending r = EOF \<and> f destPath = Some (concat (chunks r)))"
proof -
  let ?tmp = "destPath @ ''.tmp''"
  let ?d1 = "os_Create ?tmp d"
  let ?d2 = "write_all ?tmp (chunks r) ?d1"
  have ne: "destPath \<noteq> ?tmp" by simp
  have d1: "now ?d1 destPath = now d destPath"
    "\<forall>f \<in> set (seen ?d1). f destPath = now d destPath"
    using assms by (simp_all add: os_Create_def disk_step_def)
  have d2: "now ?d2 destPath = now d destPath"
    "\<forall>f \<in> set (seen ?d2). f destPath = now d destPath"
    using write_all_other_path [OF ne d1] by simp_all
  have tmp1: "now ?d1 ?tmp = Some []"
    by (simp add: os_Create_def disk_step_def)
  have tmp2: "now ?d2 ?tmp = Some (concat (chunks r))"
    by (simp add: write_all_content tmp1)
  have rm: "\<forall>f \<in> set (seen (os_Remove ?tmp ?d2)). f destPath = now d destPath"
    using d2 by (simp add: os_Remove_def disk_step_def)
  have mv: "\<forall>f \<in> set (seen (os_Rename ?tmp destPath ?d2)).
              f destPath = now d destPath \<or> f destPath = Some (concat (chunks r))"
    using d2 tmp2 by (simp add: os_Rename_def disk_step_def)
  show ?thesis
    using assms rm mv
    by (auto simp add: saveFile_def io_Copy_def Let_def
        split: option.splits read_end.splits)
qed

lemma broken_download_run:
  "download_binary broken_release_server no_faults ''/mirror'' ''consul'' ''1.0.0'' linux_amd64
     empty_disk =
   (DownloadFailed (CopyError ''unexpected EOF''),
    \<lparr>now = Map.empty(consul_zip \<mapsto> ''PKpart1''),
     seen = [Map.empty(consul_zip \<mapsto> ''''), Map.empty(consul_zip \<mapsto> ''PK''),
             Map.empty(consul_zip \<mapsto> ''PKpart1'')]\<rparr>)"
  by (simp add: download_binary_def downloadFileWithClient_def broken_release_server_def
      no_faults_def empty_disk_def linux_amd64_def consul_zip_def zip_name_def release_url_def
      filepath_Join_def binaries_fileExists_def io_Copy_def os_Create_def file_Write_def
      disk_step_def Let_def)

text \<open>
  Claim C1 against the code.  The binaries downloader creates the archive under its
  final name and copies the response body into it.  When the connection breaks after
  two chunks of \<open>consul_1.0.0_linux_amd64.zip\<close>, the download fails and the final name
  holds the two chunks, having held the empty file and the first chunk before; the next
  pass finds the file and skips it, so the partial archive stays.  A download that
  succeeds goes through the same partial states.  The registry client's \<open>saveFile\<close>, given
  the same broken reader, never puts anything under the final name.
\<close>

theorem downloadFileWithClient_exposes_partial_file:
  "fst (download_binary broken_release_server no_faults ''/mirror'' ''consul'' ''1.0.0''
          linux_amd64 empty_disk) = DownloadFailed (CopyError ''unexpected EOF'')
   \<and> map (\<lambda>fs. fs consul_zip)
         (seen (snd (download_binary broken_release_server no_faults ''/mirror'' ''consul''
                       ''1.0.0'' linux_amd64 empty_disk)))
       = [Some '''', Some ''PK'', Some ''PKpart1'']
   \<and> now (snd (download_binary broken_release_server no_faults ''/mirror'' ''consul''
                  ''1.0.0'' linux_amd64 empty_disk)) consul_zip = Some ''PKpart1''
   \<and> fst (download_binary release_server no_faults ''/mirror'' ''consul'' ''1.0.0'' linux_amd64
            (snd (download_binary broken_release_server no_faults ''/mirror'' ''consul''
                    ''1.0.0'' linux_amd64 empty_disk))) = SkippedAlreadyExists
   \<and> now (snd (download_binary release_server no_faults ''/mirror'' ''consul'' ''1.0.0''
                  linux_amd64
                  (snd (download_binary broken_release_server no_faults ''/mirror'' ''consul''
                          ''1.0.0'' linux_amd64 empty_disk)))) consul_zip = Some ''PKpart1''
   \<and> download_binary release_server no_faults ''/mirror'' ''consul'' ''1.0.0'' linux_amd64
         empty_disk =
       (DownloadSuccess,
        \<lparr>now = Map.empty(consul_zip \<mapsto> ''PKpart1part2''),
         seen = [Map.empty(consul_zip \<mapsto> ''''), Map.empty(consul_zip \<mapsto> ''PK''),
                 Map.empty(consul_zip \<mapsto> ''PKpart1''),
                 Map.empty(consul_zip \<mapsto> ''PKpart1part2'')]\<rparr>)
   \<and> map (\<lambda>fs. fs consul_zip)
         (seen (snd (saveFile no_faults
                       \<lparr>chunks = [''PK'', ''part1''], ending = ReadError ''unexpected EOF''\<rparr>
                       consul_zip empty_disk)))
       = [None, None, None, None]
   \<and> fst (saveFile no_faults
            \<lparr>chunks = [''PK'', ''part1''], ending = ReadError ''unexpected EOF''\<rparr>
            consul_zip empty_disk) = Some (FailedToWriteFileContent ''unexpected EOF'')"
proof -
  have skip: "download_binary release_server no_faults ''/mirror'' ''consul'' ''1.0.0'' linux_amd64
       \<lparr>now = Map.empty(consul_zip \<mapsto> ''PKpart1''),
        seen = [Map.empty(consul_zip \<mapsto> ''''), Map.empty(consul_zip \<mapsto> ''PK''),
                Map.empty(consul_zip \<mapsto> ''PKpart1'')]\<rparr> =
     (SkippedAlreadyExists,
       \<lparr>now = Map.empty(consul_zip \<mapsto> ''PKpart1''),
        seen = [Map.empty(consul_zip \<mapsto> ''''), Map.empty(consul_zip \<mapsto> ''PK''),
                Map.empty(consul_zip \<mapsto> ''PKpart1'')]\<rparr>)"
    by (simp add: download_binary_def no_faults_def linux_amd64_def consul_zip_def zip_name_def
        filepath_Join_def binaries_fileExists_def Let_def)
  have ok: "download_binary release_server no_faults ''/mirror'' ''consul'' ''1.0.0'' linux_amd64
         empty_disk =
       (DownloadSuccess,
        \<lparr>now = Map.empty(consul_zip \<mapsto> ''PKpart1part2''),
         seen = [Map.empty(consul_zip \<mapsto> ''''), Map.empty(consul_zip \<mapsto> ''PK''),
                 Map.empty(consul_zip \<mapsto> ''PKpart1''),
                 Map.empty(consul_zip \<mapsto> ''PKpart1part2'')]\<rparr>)"
    by (simp add: download_binary_def downloadFileWithClient_def release_server_def
        no_faults_def empty_disk_def linux_amd64_def consul_zip_def zip_name_def release_url_def
        filepath_Join_def binaries_fileExists_def io_Copy_def os_Create_def file_Write_def
        disk_step_def Let_def)
  have save: "saveFile no_faults
            \<lparr>chunks = [''PK'', ''part1''], ending = ReadError ''unexpected EOF''\<rparr>
            consul_zip empty_disk =
      (Some (FailedToWriteFileContent ''unexpected EOF''),
       \<lparr>now = Map.empty,
        seen = [Map.empty(consul_zip @ ''.tmp'' \<mapsto> ''''),
                Map.empty(consul_zip @ ''.tmp'' \<mapsto> ''PK''),
                Map.empty(consul_zip @ ''.tmp'' \<mapsto> ''PKpart1''),
                Map.empty]\<rparr>)"
    by (simp add: saveFile_def no_faults_def empty_disk_def io_Copy_def os_Create_def
        file_Write_def os_Remove_def disk_step_def Let_def)
  have tmp: "(Map.empty(consul_zip @ ''.tmp'' \<mapsto> v)) consul_zip = None" for v :: string
    by simp
  show ?thesis
    by (simp add: broken_download_run skip ok save tmp del: fun_upd_apply) (simp add: consul_zip_def)
qed

end
